theory Spec2Isabelle
  imports Main
begin

section \<open>Python values\<close>

text \<open>
  A Python \<open>str\<close> is a sequence of Unicode code points, so a string is modelled as a
  list of code points. \<open>py\<close> embeds an ASCII literal. A value that is a string or
  \<open>None\<close> (a JSON field, one half of a returned pair) is a \<open>pyval\<close>.
\<close>

type_synonym pystr = "nat list"

definition py :: "string \<Rightarrow> pystr" where
  "py s = map of_char s"

datatype pyval = PNone | PStr pystr

text \<open>Truth value of a string or \<open>None\<close>: only a non-empty string is true.\<close>

fun truthy :: "pyval \<Rightarrow> bool" where
  "truthy PNone = False"
| "truthy (PStr s) = (s \<noteq> [])"

text \<open>How an f-string prints a value: \<open>None\<close> prints as the word None.\<close>

fun format_value :: "pyval \<Rightarrow> pystr" where
  "format_value PNone = py ''None''"
| "format_value (PStr s) = s"

text \<open>\<open>d.get(k, default)\<close> on a dict.\<close>

definition dict_get :: "('k \<rightharpoonup> 'v) \<Rightarrow> 'k \<Rightarrow> 'v \<Rightarrow> 'v" where
  "dict_get d k dflt = (case d k of None \<Rightarrow> dflt | Some v \<Rightarrow> v)"

subsection \<open>The string methods the program calls\<close>

text \<open>
  The characters \<open>str.split()\<close> and \<open>str.strip()\<close> treat as whitespace
  (CPython's table for \<open>str\<close>): tab to carriage return, the four separators
  U+001C to U+001F, space, U+0085, U+00A0 and the Unicode space separators.
\<close>

definition isspace :: "nat \<Rightarrow> bool" where
  "isspace c \<longleftrightarrow>
     (9 \<le> c \<and> c \<le> 13) \<or> (28 \<le> c \<and> c \<le> 32) \<or> c = 133 \<or> c = 160 \<or>
     c = 5760 \<or> (8192 \<le> c \<and> c \<le> 8202) \<or> c = 8232 \<or> c = 8233 \<or>
     c = 8239 \<or> c = 8287 \<or> c = 12288"

text \<open>
  \<open>text.split()\<close>: the maximal runs of non-whitespace characters, in order. The
  first argument is the word being read.
\<close>

fun split_from :: "pystr \<Rightarrow> pystr \<Rightarrow> pystr list" where
  "split_from w [] = (if w = [] then [] else [w])"
| "split_from w (c # cs) =
     (if isspace c then (if w = [] then split_from [] cs else w # split_from [] cs)
      else split_from (w @ [c]) cs)"

definition str_split :: "pystr \<Rightarrow> pystr list" where
  "str_split s = split_from [] s"

text \<open>\<open>sep.join(words)\<close>.\<close>

fun str_join :: "pystr \<Rightarrow> pystr list \<Rightarrow> pystr" where
  "str_join sep [] = []"
| "str_join sep [w] = w"
| "str_join sep (w # v # ws) = w @ sep @ str_join sep (v # ws)"

text \<open>\<open>text.replace(c, new)\<close> for a one-character \<open>c\<close>.\<close>

definition str_replace :: "nat \<Rightarrow> pystr \<Rightarrow> pystr \<Rightarrow> pystr" where
  "str_replace c new s = concat (map (\<lambda>d. if d = c then new else [d]) s)"

text \<open>\<open>text.strip()\<close>: leading and trailing whitespace removed.\<close>

definition str_strip :: "pystr \<Rightarrow> pystr" where
  "str_strip s = rev (dropWhile isspace (rev (dropWhile isspace s)))"

subsection \<open>The regular expression of \<open>clean_text_content\<close>\<close>

text \<open>
  The pattern is \<^verbatim>\<open>\([^)]*\)\<close>: an opening parenthesis (code point 40), the
  longest run of characters other than the closing parenthesis (41), and a closing
  parenthesis. \<open>match_span s\<close> matches it at the head of \<open>s\<close> and returns what follows
  the match. The run is greedy; when the input ends before a closing parenthesis,
  giving characters back cannot help, since none of them is one, and there is no match.
\<close>

definition match_span :: "pystr \<Rightarrow> pystr option" where
  "match_span s =
     (case s of
        [] \<Rightarrow> None
      | c # cs \<Rightarrow>
          if c \<noteq> 40 then None
          else (case dropWhile (\<lambda>d. d \<noteq> 41) cs of
                  [] \<Rightarrow> None
                | d # rest \<Rightarrow> Some rest))"

text \<open>
  \<open>re.sub(pattern, '', text)\<close>: scan from the left; where the pattern matches, drop
  the match and go on after it; elsewhere keep the character.
\<close>

function re_sub_span :: "pystr \<Rightarrow> pystr" where
  "re_sub_span [] = []"
| "re_sub_span (c # cs) =
     (case match_span (c # cs) of
        Some rest \<Rightarrow> re_sub_span rest
      | None \<Rightarrow> c # re_sub_span cs)"
  by pat_completeness auto
termination
proof (relation "measure length")
  fix c :: nat and cs rest :: pystr
  assume "match_span (c # cs) = Some rest"
  then obtain d where d: "dropWhile (\<lambda>d. d \<noteq> 41) cs = d # rest"
    by (auto simp: match_span_def split: list.splits if_splits)
  have "length (d # rest) \<le> length cs"
    unfolding d [symmetric] by (rule length_dropWhile_le)
  then show "(rest, c # cs) \<in> measure length" by simp
qed simp_all

section \<open>The sanitizer\<close>

text \<open>
  \<open>clean_text_content\<close> on a string: the empty string is returned as it is;
  otherwise the parenthesised spans are removed, the words are joined by single
  spaces, the parentheses left are deleted, and the result is stripped.
\<close>

definition clean_str :: "pystr \<Rightarrow> pystr" where
  "clean_str text =
     (if text = [] then text
      else str_strip
             (str_replace 41 []
                (str_replace 40 []
                   (str_join [32] (str_split (re_sub_span text))))))"

fun clean_text_content :: "pyval \<Rightarrow> pyval" where
  "clean_text_content PNone = PNone"
| "clean_text_content (PStr text) = PStr (clean_str text)"

section \<open>The outside world\<close>

text \<open>
  A result set is the JSON object the search provider returns, in the shape its schema
  gives it: a dict whose entries \<open>organic\<close> and \<open>news\<close>, when present, are lists of
  items; an item is a dict whose fields, when present, are strings or null. Values of
  any other shape are treated in the section on composing from an arbitrary JSON value.
\<close>

type_synonym item = "pystr \<rightharpoonup> pyval"

type_synonym results = "pystr \<rightharpoonup> item list"

text \<open>
  Every step that reaches for a service is recorded as a \<open>call\<close>: the search request
  (URL, API key, query, number of results), an invocation of the generation model (API
  key, prompt), of the translation model (API key, message), the preparation of the
  publish agent (Composio key, OpenAI key) and a run of the agent (Composio key, OpenAI
  key, task). The services' answers are parameters: an \<open>env\<close> gives, for the calls made
  so far and the next one, either the text of the exception the client library raises
  (\<open>Inl\<close>; for the preparation \<open>Some\<close>) or the reply.
\<close>

datatype call =
    Serper_post pystr pystr pystr int
  | Gpt4_invoke pystr pystr
  | Sutra_invoke pystr pystr
  | Agent_setup pystr pystr
  | Agent_invoke pystr pystr pystr

record env =
  serper_reply :: "call list \<Rightarrow> call \<Rightarrow> pystr + results"
  gpt4_reply :: "call list \<Rightarrow> call \<Rightarrow> pystr + pystr"
  sutra_reply :: "call list \<Rightarrow> call \<Rightarrow> pystr + pystr"
  agent_setup_error :: "call list \<Rightarrow> call \<Rightarrow> pystr option"
  agent_reply :: "call list \<Rightarrow> call \<Rightarrow> pystr + pystr"

section \<open>Translation\<close>

definition system_message_part1 :: pystr where
  "system_message_part1 =
     py ''You are a professional translator. Translate the following LinkedIn post to ''"

definition system_message_part2 :: pystr where
  "system_message_part2 =
     py ''.\<newline>'' @
     py ''        Important guidelines:\<newline>'' @
     py ''        1. Maintain the professional tone and style\<newline>'' @
     py ''        2. Keep all hashtags and translate them appropriately\<newline>'' @
     py ''        3. Preserve all formatting and line breaks\<newline>'' @
     py ''        4. Keep emojis that make sense in ''"

definition system_message_part3 :: pystr where
  "system_message_part3 =
     py ''\<newline>'' @
     py ''        5. Ensure the translation is natural and engaging\<newline>'' @
     py ''        6. Maintain the same length and structure\<newline>'' @
     py ''        7. Keep any technical terms or brand names unchanged\<newline>'' @
     py ''        8. Ensure the call-to-action is culturally appropriate\<newline>'' @
     py ''        \<newline>'' @
     py ''        Post to translate:\<newline>'' @
     py ''        ''"

definition system_message_part4 :: pystr where
  "system_message_part4 =
     py ''\<newline>'' @
     py ''        ''"

definition system_message :: "pystr \<Rightarrow> pystr \<Rightarrow> pystr" where
  "system_message content target_language =
     system_message_part1 @ target_language @ system_message_part2 @ target_language @
     system_message_part3 @ content @ system_message_part4"

definition translate_content ::
  "env \<Rightarrow> call list \<Rightarrow> pystr \<Rightarrow> pystr \<Rightarrow> pystr \<Rightarrow> (pyval \<times> pyval) \<times> call list" where
  "translate_content e tr content target_language api_key =
     (if api_key = [] then ((PNone, PStr (py ''Sutra API key is required'')), tr)
      else
        let c = Sutra_invoke api_key (system_message content target_language) in
        case sutra_reply e tr c of
          Inr reply \<Rightarrow> ((PStr reply, PNone), tr @ [c])
        | Inl exn \<Rightarrow> ((PNone, PStr (py ''Translation failed: '' @ exn)), tr @ [c]))"

section \<open>Search\<close>

text \<open>
  The request is recorded by its parts: the URL, the \<open>X-API-KEY\<close> header, and the
  \<open>q\<close> and \<open>num\<close> fields of the JSON payload. \<open>Inl\<close> of the reply stands for a
  \<open>requests.RequestException\<close> (transport error, HTTP error status, body that is not
  JSON).
\<close>

definition search_web_content ::
  "env \<Rightarrow> call list \<Rightarrow> pystr \<Rightarrow> pystr \<Rightarrow> pystr \<Rightarrow> int \<Rightarrow>
     (results option \<times> pyval) \<times> call list" where
  "search_web_content e tr query search_type api_key num_results =
     (if api_key = [] then ((None, PStr (py ''Serper API key is required'')), tr)
      else
        let url = py ''https://google.serper.dev/'' @ search_type;
            c = Serper_post url api_key query num_results in
        case serper_reply e tr c of
          Inr json \<Rightarrow> ((Some json, PNone), tr @ [c])
        | Inl exn \<Rightarrow> ((None, PStr (py ''Search failed: '' @ exn)), tr @ [c]))"

text \<open>
  The function is decorated with \<^verbatim>\<open>@st.cache_data(ttl=3600)\<close>. Streamlit's decorator
  memoises the returned value under the values of all the arguments of the call, and
  an entry is used while it is younger than \<open>ttl\<close> seconds. The clock is a parameter
  \<open>now\<close>, in seconds.
\<close>

record cache_entry =
  stored_at :: nat
  cached_value :: "results option \<times> pyval"

type_synonym cache = "(pystr \<times> pystr \<times> pystr \<times> int) \<rightharpoonup> cache_entry"

definition ttl :: nat where
  "ttl = 3600"

definition cached_search_web_content ::
  "env \<Rightarrow> nat \<Rightarrow> cache \<times> call list \<Rightarrow> pystr \<Rightarrow> pystr \<Rightarrow> pystr \<Rightarrow> int \<Rightarrow>
     (results option \<times> pyval) \<times> cache \<times> call list" where
  "cached_search_web_content e now st query search_type api_key num_results =
     (let (ch, tr) = st;
          key = (query, search_type, api_key, num_results);
          miss = (let (r, tr') = search_web_content e tr query search_type api_key num_results
                  in (r, ch(key \<mapsto> \<lparr>stored_at = now, cached_value = r\<rparr>), tr'))
      in case ch key of
           None \<Rightarrow> miss
         | Some entry \<Rightarrow>
             if now < stored_at entry + ttl then (cached_value entry, ch, tr) else miss)"

section \<open>Composing a post\<close>

text \<open>
  The two loops of \<open>generate_linkedin_post\<close> over the result items: each item adds
  one bulleted line to \<open>content_summary\<close> and, when it has a non-empty link, the
  link to \<open>links\<close>. The bullet is U+2022.
\<close>

fun summarize_items :: "item list \<Rightarrow> pystr \<times> pystr list \<Rightarrow> pystr \<times> pystr list" where
  "summarize_items [] acc = acc"
| "summarize_items (it # its) (content_summary, links) =
     (let title = clean_text_content (dict_get it (py ''title'') (PStr []));
          snippet = clean_text_content (dict_get it (py ''snippet'') (PStr []));
          content_summary' =
            content_summary @ [8226, 32] @ format_value title @ py '': '' @
            format_value snippet @ [10];
          links' =
            (case it (py ''link'') of
               Some (PStr l) \<Rightarrow> if l \<noteq> [] then links @ [l] else links
             | _ \<Rightarrow> links)
      in summarize_items its (content_summary', links'))"

definition extract_content :: "results \<Rightarrow> pystr \<times> pystr list" where
  "extract_content content_data =
     (let acc0 = ([], []);
          acc1 = (case content_data (py ''organic'') of
                    Some xs \<Rightarrow> summarize_items (take 5 xs) acc0
                  | None \<Rightarrow> acc0);
          acc2 = (case content_data (py ''news'') of
                    Some xs \<Rightarrow> summarize_items (take 3 xs) acc1
                  | None \<Rightarrow> acc1)
      in acc2)"

definition base_prompt_part1 :: pystr where
  "base_prompt_part1 =
     py ''\<newline>'' @
     py ''    Create an engaging LinkedIn post in ''"

definition base_prompt_part2 :: pystr where
  "base_prompt_part2 =
     py '' based on the following content. The post should:\<newline>'' @
     py ''    \<newline>'' @
     py ''    1. Be professional yet conversational\<newline>'' @
     py ''    2. Include relevant hashtags (3-5)\<newline>'' @
     py ''    3. Have a compelling hook in the first line\<newline>'' @
     py ''    4. Be between 100-300 words\<newline>'' @
     py ''    5. Include a call-to-action\<newline>'' @
     py ''    6. Use emojis strategically (6-8 maximum)\<newline>'' @
     py ''    7. Structure with short paragraphs for readability\<newline>'' @
     py ''    8. Ensure all text is properly formatted for ''"

definition base_prompt_part3 :: pystr where
  "base_prompt_part3 =
     py ''\<newline>'' @
     py ''    9. DO NOT use parentheses () in the text\<newline>'' @
     py ''    10. Use clear, direct language without parenthetical expressions\<newline>'' @
     py ''    \<newline>'' @
     py ''    Content to base the post on:\<newline>'' @
     py ''    ''"

definition base_prompt_part4 :: pystr where
  "base_prompt_part4 =
     py ''\<newline>'' @
     py ''    \<newline>'' @
     py ''    Relevant links to potentially reference:\<newline>'' @
     py ''    ''"

definition base_prompt_part5 :: pystr where
  "base_prompt_part5 =
     py ''\<newline>'' @
     py ''    \<newline>'' @
     py ''    ''"

definition base_prompt_part6 :: pystr where
  "base_prompt_part6 =
     py ''\<newline>'' @
     py ''    \<newline>'' @
     py ''    Generate a LinkedIn post that will engage professional audiences and encourage interaction.\<newline>'' @
     py ''    ''"

definition base_prompt :: "results \<Rightarrow> pystr \<Rightarrow> pystr \<Rightarrow> pystr" where
  "base_prompt content_data custom_prompt target_language =
     (let (content_summary, links) = extract_content content_data in
      base_prompt_part1 @ target_language @ base_prompt_part2 @ target_language @
      base_prompt_part3 @ content_summary @ base_prompt_part4 @
      str_join [10] (take 3 links) @ base_prompt_part5 @
      (if custom_prompt \<noteq> [] then custom_prompt else []) @ base_prompt_part6)"

definition generate_linkedin_post ::
  "env \<Rightarrow> call list \<Rightarrow> results \<Rightarrow> pystr \<Rightarrow> pystr \<Rightarrow> pystr \<Rightarrow>
     (pyval \<times> pyval) \<times> call list" where
  "generate_linkedin_post e tr content_data custom_prompt api_key target_language =
     (if api_key = [] then ((PNone, PStr (py ''OpenAI API key is required'')), tr)
      else
        let target_language' = str_strip target_language;
            c = Gpt4_invoke api_key (base_prompt content_data custom_prompt target_language') in
        case gpt4_reply e tr c of
          Inr response_content \<Rightarrow>
            ((clean_text_content (PStr response_content), PNone), tr @ [c])
        | Inl exn \<Rightarrow> ((PNone, PStr (py ''Post generation failed: '' @ exn)), tr @ [c]))"

subsection \<open>Composing from an arbitrary JSON value\<close>

text \<open>
  \<open>response.json()\<close> can be any JSON value, and the lines of \<open>generate_linkedin_post\<close>
  that read it stand before the \<open>try\<close> block: what they raise is not caught. This
  section models them on every JSON value (numbers as integers; a dict as the list of
  its entries, looked up from the front).
\<close>

datatype json_value =
    JNull
  | JBool bool
  | JNum int
  | JStr pystr
  | JList "json_value list"
  | JDict "(pystr \<times> json_value) list"

text \<open>
  The exceptions these lines can raise. Slicing a dict raises a \<open>TypeError\<close> up to Python
  3.11 and a \<open>KeyError\<close> from 3.12 on; the model has one value for both.
\<close>

datatype py_exn = TypeError | AttributeError | TypeError_or_KeyError

text \<open>Truth value of a JSON value in a condition.\<close>

fun truthy_json :: "json_value \<Rightarrow> bool" where
  "truthy_json JNull = False"
| "truthy_json (JBool b) = b"
| "truthy_json (JNum n) = (n \<noteq> 0)"
| "truthy_json (JStr s) = (s \<noteq> [])"
| "truthy_json (JList xs) = (xs \<noteq> [])"
| "truthy_json (JDict d) = (d \<noteq> [])"

text \<open>\<open>key in text\<close> for two strings: \<open>key\<close> occurs in \<open>text\<close>.\<close>

fun starts_with :: "pystr \<Rightarrow> pystr \<Rightarrow> bool" where
  "starts_with [] ys = True"
| "starts_with (x # xs) [] = False"
| "starts_with (x # xs) (y # ys) = (x = y \<and> starts_with xs ys)"

fun occurs_in :: "pystr \<Rightarrow> pystr \<Rightarrow> bool" where
  "occurs_in key [] = (key = [])"
| "occurs_in key (y # ys) = (starts_with key (y # ys) \<or> occurs_in key ys)"

text \<open>
  \<open>value[:n]\<close> as the list the \<open>for\<close> loop runs over: the first \<open>n\<close> elements of a
  list, the first \<open>n\<close> characters of a string (each a string of its own); no other value
  can be sliced.
\<close>

fun slice_items :: "nat \<Rightarrow> json_value \<Rightarrow> py_exn + json_value list" where
  "slice_items n (JList xs) = Inr (take n xs)"
| "slice_items n (JStr s) = Inr (map (\<lambda>c. JStr [c]) (take n s))"
| "slice_items n (JDict d) = Inl TypeError_or_KeyError"
| "slice_items n v = Inl TypeError"

text \<open>
  The items of one loop: \<open>content_data[key][:n]\<close> when \<open>key in content_data\<close>, and none
  when it is not. The test needs a container; a list or a string that holds the key
  passes the test and cannot be indexed by it.
\<close>

fun section_items :: "json_value \<Rightarrow> pystr \<Rightarrow> nat \<Rightarrow> py_exn + json_value list" where
  "section_items (JDict d) key n =
     (case map_of d key of None \<Rightarrow> Inr [] | Some v \<Rightarrow> slice_items n v)"
| "section_items (JList xs) key n = (if JStr key \<in> set xs then Inl TypeError else Inr [])"
| "section_items (JStr s) key n = (if occurs_in key s then Inl TypeError else Inr [])"
| "section_items v key n = Inl TypeError"

text \<open>
  A title or snippet as it stands in the line: \<open>clean_text_content\<close> returns a false
  value unchanged and the f-string prints it; it sanitizes a string; on any other true
  value its regular expression substitution raises.
\<close>

fun field_text :: "json_value \<Rightarrow> py_exn + pystr" where
  "field_text JNull = Inr (py ''None'')"
| "field_text (JBool b) = (if b then Inl TypeError else Inr (py ''False''))"
| "field_text (JNum n) = (if n \<noteq> 0 then Inl TypeError else Inr (py ''0''))"
| "field_text (JStr s) = Inr (clean_str s)"
| "field_text (JList xs) = (if xs \<noteq> [] then Inl TypeError else Inr (py ''[]''))"
| "field_text (JDict d) = (if d \<noteq> [] then Inl TypeError else Inr [123, 125])"

text \<open>The body of the loops; \<open>item.get\<close> needs a dict.\<close>

fun summarize_items_json ::
  "json_value list \<Rightarrow> pystr \<times> json_value list \<Rightarrow> py_exn + pystr \<times> json_value list" where
  "summarize_items_json [] acc = Inr acc"
| "summarize_items_json (JDict d # rest) (content_summary, links) =
     (case field_text (dict_get (map_of d) (py ''title'') (JStr [])) of
        Inl x \<Rightarrow> Inl x
      | Inr title \<Rightarrow>
          (case field_text (dict_get (map_of d) (py ''snippet'') (JStr [])) of
             Inl x \<Rightarrow> Inl x
           | Inr snippet \<Rightarrow>
               let content_summary' =
                     content_summary @ [8226, 32] @ title @ py '': '' @ snippet @ [10];
                   links' =
                     (if truthy_json (dict_get (map_of d) (py ''link'') JNull)
                      then links @ [dict_get (map_of d) (py ''link'') JNull]
                      else links)
               in summarize_items_json rest (content_summary', links')))"
| "summarize_items_json (v # rest) acc = Inl AttributeError"

definition extract_content_json :: "json_value \<Rightarrow> py_exn + pystr \<times> json_value list" where
  "extract_content_json content_data =
     (case section_items content_data (py ''organic'') 5 of
        Inl x \<Rightarrow> Inl x
      | Inr organic_items \<Rightarrow>
          (case summarize_items_json organic_items ([], []) of
             Inl x \<Rightarrow> Inl x
           | Inr acc1 \<Rightarrow>
               (case section_items content_data (py ''news'') 3 of
                  Inl x \<Rightarrow> Inl x
                | Inr news_items \<Rightarrow> summarize_items_json news_items acc1)))"

text \<open>\<open>chr(10).join(links[:3])\<close>: every link joined has to be a string.\<close>

fun join_links :: "json_value list \<Rightarrow> py_exn + pystr list" where
  "join_links [] = Inr []"
| "join_links (JStr l # rest) =
     (case join_links rest of Inl x \<Rightarrow> Inl x | Inr ls \<Rightarrow> Inr (l # ls))"
| "join_links (v # rest) = Inl TypeError"

text \<open>
  \<open>generate_linkedin_post\<close> on an arbitrary JSON value: \<open>Inl\<close> is an exception that
  leaves the function, \<open>Inr\<close> what it returns.
\<close>

definition generate_linkedin_post_json ::
  "env \<Rightarrow> call list \<Rightarrow> json_value \<Rightarrow> pystr \<Rightarrow> pystr \<Rightarrow> pystr \<Rightarrow>
     py_exn + (pyval \<times> pyval) \<times> call list" where
  "generate_linkedin_post_json e tr content_data custom_prompt api_key target_language =
     (if api_key = [] then Inr ((PNone, PStr (py ''OpenAI API key is required'')), tr)
      else
        let target_language' = str_strip target_language in
        case extract_content_json content_data of
          Inl x \<Rightarrow> Inl x
        | Inr (content_summary, links) \<Rightarrow>
            (case join_links (take 3 links) of
               Inl x \<Rightarrow> Inl x
             | Inr first_links \<Rightarrow>
                 let c = Gpt4_invoke api_key
                           (base_prompt_part1 @ target_language' @ base_prompt_part2 @
                            target_language' @ base_prompt_part3 @ content_summary @
                            base_prompt_part4 @ str_join [10] first_links @
                            base_prompt_part5 @
                            (if custom_prompt \<noteq> [] then custom_prompt else []) @
                            base_prompt_part6) in
                 case gpt4_reply e tr c of
                   Inr response_content \<Rightarrow>
                     Inr ((clean_text_content (PStr response_content), PNone), tr @ [c])
                 | Inl exn \<Rightarrow>
                     Inr ((PNone, PStr (py ''Post generation failed: '' @ exn)), tr @ [c])))"

section \<open>Publishing\<close>

definition task_part1 :: pystr where
  "task_part1 =
     py ''\<newline>'' @
     py ''        Create a LinkedIn post by author ''"

definition task_part2 :: pystr where
  "task_part2 =
     py '' \<newline>'' @
     py ''        and set visibility to PUBLIC, lifecycleState to PUBLISHED, and resharing enabled.\<newline>'' @
     py ''        \<newline>'' @
     py ''        Post content: '' @
     [39]"

definition task_part3 :: pystr where
  "task_part3 =
     [39] @
     py ''\<newline>'' @
     py ''        ''"

definition task :: "pystr \<Rightarrow> pystr \<Rightarrow> pystr" where
  "task author_urn post_content = task_part1 @ author_urn @ task_part2 @ post_content @ task_part3"

text \<open>
  The \<open>try\<close> block has two steps. The preparation builds the model from the OpenAI key
  of the sidebar, pulls the agent prompt from the hub, asks Composio for the tools and
  builds the agent and its executor; any of these can raise, and then the agent is not
  run. Only after it does the executor run the agent on the task text. An exception of
  either step is caught and returned as the error.
\<close>

definition upload_to_linkedin ::
  "env \<Rightarrow> call list \<Rightarrow> pystr \<Rightarrow> pystr \<Rightarrow> pystr \<Rightarrow> pystr \<Rightarrow> (pyval \<times> pyval) \<times> call list" where
  "upload_to_linkedin e tr openai_key post_content author_urn api_key =
     (if api_key = [] then ((PNone, PStr (py ''Composio API key is required'')), tr)
      else
        let prepare = Agent_setup api_key openai_key;
            tr1 = tr @ [prepare] in
        case agent_setup_error e tr prepare of
          Some exn \<Rightarrow> ((PNone, PStr (py ''LinkedIn upload failed: '' @ exn)), tr1)
        | None \<Rightarrow>
            let c = Agent_invoke api_key openai_key (task author_urn post_content) in
            case agent_reply e tr1 c of
              Inr result \<Rightarrow> ((PStr result, PNone), tr1 @ [c])
            | Inl exn \<Rightarrow> ((PNone, PStr (py ''LinkedIn upload failed: '' @ exn)), tr1 @ [c]))"

section \<open>The page\<close>

text \<open>What the page shows: \<open>st.error\<close>, \<open>st.success\<close>, \<open>st.code\<close>, \<open>st.markdown\<close>.\<close>

datatype ui_event =
    St_error pystr
  | St_success pystr
  | St_code pystr
  | St_markdown pystr
  | Uncaught_exception pystr

text \<open>\<open>str(n)\<close> of a natural number, as the f-strings print it.\<close>

function str_nat :: "nat \<Rightarrow> pystr" where
  "str_nat n = (if n < 10 then [48 + n] else str_nat (n div 10) @ [48 + n mod 10])"
  by pat_completeness auto
termination
  by (relation "measure id") auto

declare str_nat.simps [simp del]

text \<open>The style instructions of the \<open>i\<close>-th pass of the loop over \<open>range(3)\<close>.\<close>

definition variation_prompt :: "pystr \<Rightarrow> nat \<Rightarrow> pystr" where
  "variation_prompt custom_prompt i =
     (let p = clean_str custom_prompt in
      if i = 1 then
        p @ py ''\<newline>\<newline>Make this version more casual and story-driven.''
      else if i = 2 then
        p @ py ''\<newline>\<newline>Make this version more data-driven and professional.''
      else p)"

record post =
  content :: pyval
  timestamp :: nat
  variation :: pystr
  language :: pystr

text \<open>
  The loop \<open>for i in range(3)\<close> of the search handler, over the list of the indices
  left; \<open>now\<close> is the clock reading put into each post.
\<close>

fun generate_variations ::
  "env \<Rightarrow> nat \<Rightarrow> results \<Rightarrow> pystr \<Rightarrow> pystr \<Rightarrow> pystr \<Rightarrow> nat list \<Rightarrow>
     post list \<times> call list \<Rightarrow> post list \<times> call list" where
  "generate_variations e now found custom_prompt openai_key selected [] acc = acc"
| "generate_variations e now found custom_prompt openai_key selected (i # rest)
     (post_variations, tr) =
     (let ((post_content, post_error), tr') =
            generate_linkedin_post e tr found (variation_prompt custom_prompt i)
              openai_key (clean_str selected);
          post_variations' =
            (if truthy post_content then
               post_variations @
               [\<lparr>content = post_content, timestamp = now,
                 variation = py ''Variation '' @ str_nat (i + 1),
                 language = clean_str selected\<rparr>]
             else post_variations)
      in generate_variations e now found custom_prompt openai_key selected rest
           (post_variations', tr'))"

text \<open>The values of the input widgets when a handler runs.\<close>

record widgets =
  serper_api_key :: pystr
  openai_api_key :: pystr
  composio_api_key :: pystr
  sutra_api_key :: pystr
  linkedin_author_urn :: pystr
  selected_language :: pystr
  search_type :: pystr
  num_results :: int
  search_query :: pystr
  custom_prompt :: pystr

text \<open>
  The state a handler works on: the two slots of the session state (the search
  results are \<open>None\<close> before the first search), the search cache of the process, the
  calls made so far, and what has been shown.
\<close>

record app =
  generated_posts :: "post list"
  search_results :: "results option"
  search_cache :: cache
  calls :: "call list"
  shown :: "ui_event list"

definition show_event :: "ui_event \<Rightarrow> app \<Rightarrow> app" where
  "show_event ev a = a\<lparr>shown := shown a @ [ev]\<rparr>"

text \<open>
  The handler of the button that searches and generates the posts. A search that
  returns neither an error nor a result set does not occur with \<open>search_web_content\<close>;
  the generation would raise on it, which the model records as an uncaught exception.
\<close>

definition search_button :: "env \<Rightarrow> nat \<Rightarrow> widgets \<Rightarrow> app \<Rightarrow> app" where
  "search_button e now w a =
     (if search_query w = [] then
        show_event (St_error (py ''Please enter a search query'')) a
      else if serper_api_key w = [] then
        show_event (St_error (py ''Please provide Serper API key in the sidebar'')) a
      else if openai_api_key w = [] then
        show_event (St_error (py ''Please provide OpenAI API key in the sidebar'')) a
      else
        let ((found, search_error), ch, tr) =
              cached_search_web_content e now (search_cache a, calls a)
                (search_query w) (search_type w) (serper_api_key w) (num_results w);
            a1 = a\<lparr>search_cache := ch, calls := tr\<rparr>
        in
        if truthy search_error then
          show_event (St_error (py ''Search failed: '' @ format_value search_error)) a1
        else
          (case found of
             None \<Rightarrow>
               show_event (Uncaught_exception (py ''TypeError''))
                 (a1\<lparr>search_results := None\<rparr>)
           | Some json \<Rightarrow>
               let (post_variations, tr') =
                     generate_variations e now json (custom_prompt w) (openai_api_key w)
                       (selected_language w) [0, 1, 2] ([], tr);
                   a2 = a1\<lparr>search_results := Some json, generated_posts := post_variations,
                          calls := tr'\<rparr>
               in
               if post_variations \<noteq> [] then
                 show_event
                   (St_success
                      ([9989] @ py '' Generated '' @ str_nat (length post_variations) @
                       py '' post variations in '' @ clean_str (selected_language w) @
                       py ''!''))
                   a2
               else
                 show_event
                   (St_error
                      (py ''Failed to generate posts. Please check your API keys and try again.''))
                   a2))"

text \<open>The handler of a post's copy button; \<open>edited_content\<close> is the text area's value.\<close>

definition copy_button :: "pystr \<Rightarrow> app \<Rightarrow> app" where
  "copy_button edited_content a =
     (let cleaned_content = clean_str edited_content in
      show_event (St_success ([9989] @ py '' Post copied! You can now paste it anywhere.''))
        (show_event (St_code cleaned_content) a))"

definition success_box_part1 :: pystr where
  "success_box_part1 =
     py ''\<newline>'' @
     py ''                                <div class='' @
     [34] @
     py ''success-box'' @
     [34] @
     py ''>\<newline>'' @
     py ''                                    <strong>'' @
     [127881] @
     py '' Successfully uploaded to LinkedIn!</strong><br>\<newline>'' @
     py ''                                    Your post is now live on your LinkedIn profile in ''"

definition success_box_part2 :: pystr where
  "success_box_part2 =
     py ''.\<newline>'' @
     py ''                                </div>\<newline>'' @
     py ''                                ''"

text \<open>The handler of a post's upload button.\<close>

definition upload_button :: "env \<Rightarrow> widgets \<Rightarrow> post \<Rightarrow> pystr \<Rightarrow> app \<Rightarrow> app" where
  "upload_button e w post_data edited_content a =
     (let language_display = clean_str (language post_data) in
      if composio_api_key w = [] then
        show_event (St_error (py ''Please provide Composio API key in the sidebar'')) a
      else if linkedin_author_urn w = [] then
        show_event (St_error (py ''Please provide LinkedIn Author URN in the sidebar'')) a
      else
        let cleaned_content = clean_str edited_content;
            ((result, upload_error), tr) =
              upload_to_linkedin e (calls a) (openai_api_key w) cleaned_content
                (linkedin_author_urn w) (composio_api_key w);
            a1 = a\<lparr>calls := tr\<rparr>
        in
        if truthy upload_error then
          show_event (St_error (py ''Upload failed: '' @ format_value upload_error)) a1
        else
          show_event
            (St_markdown (success_box_part1 @ language_display @ success_box_part2)) a1)"

text \<open>
  The state at the first load of the page in a fresh process: the session slots as the
  page initialises them and an empty cache. The cache belongs to the process, not to
  the session: a later session starts with the cache as the earlier ones left it.
\<close>

definition initial_app :: app where
  "initial_app =
     \<lparr>generated_posts = [], search_results = None, search_cache = Map.empty,
      calls = [], shown = []\<rparr>"

section \<open>Notions used to state the properties\<close>

text \<open>A word, as \<open>split\<close> returns them: not empty and free of whitespace.\<close>

definition is_word :: "pystr \<Rightarrow> bool" where
  "is_word w \<longleftrightarrow> w \<noteq> [] \<and> list_all (\<lambda>c. \<not> isspace c) w"

text \<open>A post whose content came out of the sanitizer.\<close>

definition sanitized_post :: "post \<Rightarrow> bool" where
  "sanitized_post p \<longleftrightarrow> (\<exists>r. content p = PStr (clean_str r))"

text \<open>
  The content summary as the specification describes it: one bulleted line per item
  used, with the title and the snippet sanitized, over the first five organic items
  followed by the first three news items; and the link an item contributes. A field
  shows as its sanitized text, as nothing when the item does not have it, and as the
  word None when it is null.
\<close>

definition field_shown :: "pyval option \<Rightarrow> pystr" where
  "field_shown v =
     (case v of None \<Rightarrow> [] | Some PNone \<Rightarrow> py ''None'' | Some (PStr s) \<Rightarrow> clean_str s)"

definition summary_line :: "item \<Rightarrow> pystr" where
  "summary_line it =
     [8226, 32] @ field_shown (it (py ''title'')) @ [58, 32] @
     field_shown (it (py ''snippet'')) @ [10]"

definition item_link :: "item \<Rightarrow> pystr list" where
  "item_link it =
     (case it (py ''link'') of Some (PStr l) \<Rightarrow> if l \<noteq> [] then [l] else [] | _ \<Rightarrow> [])"

definition items_used :: "results \<Rightarrow> item list" where
  "items_used content_data =
     take 5 (case content_data (py ''organic'') of Some xs \<Rightarrow> xs | None \<Rightarrow> []) @
     take 3 (case content_data (py ''news'') of Some xs \<Rightarrow> xs | None \<Rightarrow> [])"

text \<open>
  A JSON value that follows the provider's schema, and the result set it is: the value
  is a dict; its \<open>organic\<close> and \<open>news\<close> entries, when present, are lists of dicts; the
  title, snippet and link of an item, when present, are strings or null.
\<close>

definition field_ok :: "json_value option \<Rightarrow> bool" where
  "field_ok v = (case v of None \<Rightarrow> True | Some JNull \<Rightarrow> True | Some (JStr s) \<Rightarrow> True
                 | _ \<Rightarrow> False)"

definition field_view :: "json_value option \<Rightarrow> pyval option" where
  "field_view v = (case v of Some JNull \<Rightarrow> Some PNone | Some (JStr s) \<Rightarrow> Some (PStr s)
                   | _ \<Rightarrow> None)"

definition item_ok :: "json_value \<Rightarrow> bool" where
  "item_ok v =
     (case v of
        JDict d \<Rightarrow> field_ok (map_of d (py ''title'')) \<and> field_ok (map_of d (py ''snippet'')) \<and>
                   field_ok (map_of d (py ''link''))
      | _ \<Rightarrow> False)"

definition item_view :: "json_value \<Rightarrow> item" where
  "item_view v = (case v of JDict d \<Rightarrow> (\<lambda>k. field_view (map_of d k)) | _ \<Rightarrow> Map.empty)"

definition section_ok :: "json_value option \<Rightarrow> bool" where
  "section_ok v = (case v of None \<Rightarrow> True | Some (JList xs) \<Rightarrow> list_all item_ok xs
                   | _ \<Rightarrow> False)"

definition section_view :: "json_value option \<Rightarrow> item list option" where
  "section_view v = (case v of Some (JList xs) \<Rightarrow> Some (map item_view xs) | _ \<Rightarrow> None)"

definition results_ok :: "json_value \<Rightarrow> bool" where
  "results_ok v =
     (case v of
        JDict d \<Rightarrow> section_ok (map_of d (py ''organic'')) \<and> section_ok (map_of d (py ''news''))
      | _ \<Rightarrow> False)"

definition results_view :: "json_value \<Rightarrow> results" where
  "results_view v = (case v of JDict d \<Rightarrow> (\<lambda>k. section_view (map_of d k)) | _ \<Rightarrow> Map.empty)"

text \<open>
  The three passes of the generation loop, one by one: the call the \<open>i\<close>-th pass
  makes, what \<open>generate_linkedin_post\<close> returns in it (it runs after the calls of the
  earlier passes), and the post stored for a returned content.
\<close>

definition variation_call :: "results \<Rightarrow> pystr \<Rightarrow> pystr \<Rightarrow> pystr \<Rightarrow> nat \<Rightarrow> call" where
  "variation_call found style k sel i =
     Gpt4_invoke k (base_prompt found (variation_prompt style i) (str_strip (clean_str sel)))"

definition variation_result ::
  "env \<Rightarrow> call list \<Rightarrow> results \<Rightarrow> pystr \<Rightarrow> pystr \<Rightarrow> pystr \<Rightarrow> nat \<Rightarrow> pyval \<times> pyval" where
  "variation_result e tr found style k sel i =
     fst (generate_linkedin_post e (tr @ map (variation_call found style k sel) [0..<i]) found
            (variation_prompt style i) k (clean_str sel))"

definition variation_post :: "nat \<Rightarrow> pystr \<Rightarrow> pyval \<Rightarrow> nat \<Rightarrow> post" where
  "variation_post now sel c i =
     \<lparr>content = c, timestamp = now, variation = py ''Variation '' @ str_nat (i + 1),
      language = clean_str sel\<rparr>"

section \<open>The sanitizer as the specification describes it\<close>

text \<open>
  The specification describes the sanitizer by its effect on the text: every span from
  an opening parenthesis to the next closing one is removed, every run of whitespace
  becomes one space, the parentheses left are stripped, and the ends are trimmed.
  These definitions follow that wording; they are compared with \<open>clean_str\<close> below.
\<close>

text \<open>
  The text before the first opening parenthesis is kept. When a closing parenthesis
  follows it, the span up to and including the next one is dropped and the rest is
  treated the same way; when none follows, the text stays as it is.
\<close>

function spec_remove_spans :: "pystr \<Rightarrow> pystr" where
  "spec_remove_spans s =
     (let from_open = dropWhile (\<lambda>c. c \<noteq> 40) s in
      if 41 \<in> set from_open then
        takeWhile (\<lambda>c. c \<noteq> 40) s @
        spec_remove_spans (tl (dropWhile (\<lambda>c. c \<noteq> 41) from_open))
      else s)"
  by pat_completeness auto
termination
proof (relation "measure length")
  fix s from_open :: pystr
  assume o: "from_open = dropWhile (\<lambda>c. c \<noteq> 40) s" and m: "41 \<in> set from_open"
  from m have "dropWhile (\<lambda>c. c \<noteq> 41) from_open \<noteq> []"
    by (auto simp: dropWhile_eq_Nil_conv)
  then have "length (tl (dropWhile (\<lambda>c. c \<noteq> 41) from_open)) <
             length (dropWhile (\<lambda>c. c \<noteq> 41) from_open)" by simp
  also have "\<dots> \<le> length from_open" by (rule length_dropWhile_le)
  also have "\<dots> \<le> length s" unfolding o by (rule length_dropWhile_le)
  finally show "(tl (dropWhile (\<lambda>c. c \<noteq> 41) from_open), s) \<in> measure length" by simp
qed simp

declare spec_remove_spans.simps [simp del]

text \<open>A whitespace character and the whitespace after it become one space.\<close>

function spec_collapse_ws :: "pystr \<Rightarrow> pystr" where
  "spec_collapse_ws [] = []"
| "spec_collapse_ws (c # cs) =
     (if isspace c then 32 # spec_collapse_ws (dropWhile isspace cs)
      else c # spec_collapse_ws cs)"
  by pat_completeness auto
termination
proof (relation "measure length")
  fix c :: nat and cs :: pystr
  have "length (dropWhile isspace cs) \<le> length cs" by (rule length_dropWhile_le)
  then show "(dropWhile isspace cs, c # cs) \<in> measure length" by simp
qed simp_all

definition spec_strip_parens :: "pystr \<Rightarrow> pystr" where
  "spec_strip_parens s = filter (\<lambda>c. c \<noteq> 40 \<and> c \<noteq> 41) s"

definition spec_trim :: "pystr \<Rightarrow> pystr" where
  "spec_trim s = rev (dropWhile isspace (rev (dropWhile isspace s)))"

definition spec_sanitize :: "pystr \<Rightarrow> pystr" where
  "spec_sanitize s = spec_trim (spec_strip_parens (spec_collapse_ws (spec_remove_spans s)))"

section \<open>Sample inputs\<close>

text \<open>
  Inputs for concrete runs: a result set with two organic items, one with ten organic
  and five news items, services that answer every model call with a given text and
  never raise, and a filled-in sidebar.
\<close>

definition sample_results :: results where
  "sample_results =
     [py ''organic'' \<mapsto>
        [[py ''title'' \<mapsto> PStr (py ''Agents (2025)''),
          py ''snippet'' \<mapsto> PStr (py ''A  survey''),
          py ''link'' \<mapsto> PStr (py ''https://a.example'')],
         [py ''title'' \<mapsto> PStr (py ''Frameworks'')]]]"

definition many_results :: results where
  "many_results =
     [py ''organic'' \<mapsto> replicate 10 [py ''title'' \<mapsto> PStr (py ''T (x)'')],
      py ''news'' \<mapsto> replicate 5 [py ''snippet'' \<mapsto> PStr (py ''S'')]]"

text \<open>
  A reply of the provider as a JSON value: an entry the page does not read, and two
  organic items, the first with a title and a field the page does not read, the second
  with no field at all.
\<close>

definition sample_json :: json_value where
  "sample_json =
     JDict [(py ''searchParameters'', JDict [(py ''num'', JNum 10)]),
            (py ''organic'',
             JList [JDict [(py ''title'', JStr (py ''Agents (2025)'')), (py ''position'', JNum 1)],
                    JDict []])]"

definition sample_env :: "pystr \<Rightarrow> env" where
  "sample_env reply =
     \<lparr>serper_reply = (\<lambda>tr c. Inr sample_results),
      gpt4_reply = (\<lambda>tr c. Inr reply),
      sutra_reply = (\<lambda>tr c. Inr reply),
      agent_setup_error = (\<lambda>tr c. None),
      agent_reply = (\<lambda>tr c. Inr (py ''posted''))\<rparr>"

definition sample_widgets :: widgets where
  "sample_widgets =
     \<lparr>serper_api_key = py ''sk'', openai_api_key = py ''ok'', composio_api_key = py ''ck'',
      sutra_api_key = py ''tk'', linkedin_author_urn = py ''urn:li:person:1'',
      selected_language = py ''English'', search_type = py ''search'', num_results = 10,
      search_query = py ''Agentic AI Frameworks'', custom_prompt = py ''Focus (briefly) on AI''\<rparr>"

definition sample_post :: post where
  "sample_post =
     \<lparr>content = PStr (py ''Hello''), timestamp = 0, variation = py ''Variation 1'',
      language = py ''English''\<rparr>"

section \<open>Properties of the string functions\<close>

text \<open>The definitions a concrete run of the sanitizer unfolds.\<close>

lemmas run_defs = clean_str_def py_def match_span_def str_split_def isspace_def
  str_replace_def str_strip_def

text \<open>The definitions a concrete run of a page handler unfolds.\<close>

lemmas page_defs = search_button_def cached_search_web_content_def search_web_content_def
  generate_linkedin_post_def show_event_def copy_button_def upload_button_def
  upload_to_linkedin_def initial_app_def sample_env_def sample_widgets_def sample_post_def
  Let_def

lemma str_replace_empty: "str_replace c [] s = filter (\<lambda>d. d \<noteq> c) s"
  by (induction s) (simp_all add: str_replace_def)

lemma set_str_strip: "set (str_strip s) \<subseteq> set s"
proof
  fix x assume "x \<in> set (str_strip s)"
  then have "x \<in> set (dropWhile isspace (rev (dropWhile isspace s)))"
    by (simp add: str_strip_def)
  then have "x \<in> set (rev (dropWhile isspace s))" by (rule set_dropWhileD)
  then have "x \<in> set (dropWhile isspace s)" by simp
  then show "x \<in> set s" by (rule set_dropWhileD)
qed

lemma clean_str_no_parens: "40 \<notin> set (clean_str s) \<and> 41 \<notin> set (clean_str s)"
proof (cases "s = []")
  case True
  then show ?thesis by (simp add: clean_str_def)
next
  case False
  let ?t = "str_replace 41 [] (str_replace 40 [] (str_join [32] (str_split (re_sub_span s))))"
  have "40 \<notin> set ?t \<and> 41 \<notin> set ?t"
    by (simp add: str_replace_empty)
  moreover have "set (clean_str s) \<subseteq> set ?t"
    using False set_str_strip [of ?t] by (simp add: clean_str_def)
  ultimately show ?thesis by blast
qed

lemma split_from_words:
  "w = [] \<or> is_word w \<Longrightarrow> list_all is_word (split_from w s)"
  by (induction s arbitrary: w) (auto simp: is_word_def)

lemma str_split_words: "list_all is_word (str_split s)"
  by (simp add: str_split_def split_from_words)

lemma isspace_32: "isspace 32"
  by (simp add: isspace_def)

lemma set_str_join: "set (str_join sep ws) \<subseteq> set sep \<union> \<Union> (set ` set ws)"
  by (induction sep ws rule: str_join.induct) auto

lemma match_span_open:
  "match_span (40 # cs) =
     (if 41 \<in> set cs then Some (tl (dropWhile (\<lambda>d. d \<noteq> 41) cs)) else None)"
proof (cases "dropWhile (\<lambda>d. d \<noteq> 41) cs")
  case Nil
  then have "41 \<notin> set cs" by (auto simp: dropWhile_eq_Nil_conv)
  moreover have "match_span (40 # cs) = None"
    unfolding match_span_def by (simp only: Nil list.case if_False simp_thms)
  ultimately show ?thesis by simp
next
  case (Cons d rest)
  then have "d \<in> set (dropWhile (\<lambda>d. d \<noteq> 41) cs)" by simp
  then have "d \<in> set cs" by (rule set_dropWhileD)
  moreover from Cons have "d = 41" by (simp add: dropWhile_eq_Cons_conv)
  ultimately have "41 \<in> set cs" by simp
  moreover have "match_span (40 # cs) = Some rest"
    unfolding match_span_def by (simp only: Cons list.case if_False simp_thms)
  ultimately show ?thesis by (simp add: Cons)
qed

lemma match_span_other: "c \<noteq> 40 \<Longrightarrow> match_span (c # cs) = None"
  by (simp add: match_span_def)

lemma re_sub_span_no_close: "41 \<notin> set s \<Longrightarrow> re_sub_span s = s"
proof (induction s)
  case Nil
  then show ?case by simp
next
  case (Cons c cs)
  then have "match_span (c # cs) = None"
    by (cases "c = 40") (simp_all add: match_span_open match_span_other)
  with Cons show ?case by simp
qed

lemma spec_remove_spans_Nil: "spec_remove_spans [] = []"
  by (simp add: spec_remove_spans.simps)

lemma spec_remove_spans_open:
  "spec_remove_spans (40 # cs) =
     (if 41 \<in> set cs then spec_remove_spans (tl (dropWhile (\<lambda>d. d \<noteq> 41) cs)) else 40 # cs)"
  by (subst spec_remove_spans.simps) simp

lemma spec_remove_spans_other:
  assumes "c \<noteq> 40"
  shows "spec_remove_spans (c # cs) = c # spec_remove_spans cs"
proof (cases "41 \<in> set (dropWhile (\<lambda>c. c \<noteq> 40) cs)")
  case True
  then show ?thesis
    using assms by (subst spec_remove_spans.simps, subst (2) spec_remove_spans.simps) simp
next
  case False
  then show ?thesis
    using assms by (subst spec_remove_spans.simps, subst (2) spec_remove_spans.simps) simp
qed

lemma re_sub_span_eq_spec: "re_sub_span s = spec_remove_spans s"
proof (induction s rule: re_sub_span.induct)
  case 1
  then show ?case by (simp add: spec_remove_spans_Nil)
next
  case (2 c cs)
  show ?case
  proof (cases "c = 40")
    case False
    with 2 show ?thesis by (simp add: match_span_other spec_remove_spans_other)
  next
    case True
    show ?thesis
    proof (cases "41 \<in> set cs")
      case close: True
      with True have m: "match_span (c # cs) = Some (tl (dropWhile (\<lambda>d. d \<noteq> 41) cs))"
        by (simp add: match_span_open)
      then have "re_sub_span (tl (dropWhile (\<lambda>d. d \<noteq> 41) cs)) =
                 spec_remove_spans (tl (dropWhile (\<lambda>d. d \<noteq> 41) cs))"
        using 2 by blast
      with m True close show ?thesis
        by (simp add: spec_remove_spans_open)
    next
      case no_close: False
      then have "re_sub_span cs = cs" by (rule re_sub_span_no_close)
      with True no_close show ?thesis
        by (simp add: match_span_open spec_remove_spans_open)
    qed
  qed
qed

lemma split_skip_ws: "split_from [] (dropWhile isspace cs) = split_from [] cs"
  by (induction cs) simp_all

lemma str_join_Cons: "ws \<noteq> [] \<Longrightarrow> str_join sep (w # ws) = w @ sep @ str_join sep ws"
  by (cases ws) simp_all

lemma spec_collapse_ws_split:
  "(\<forall>w. is_word w \<longrightarrow>
      (\<exists>b. list_all isspace b \<and> w @ spec_collapse_ws t = str_join [32] (split_from w t) @ b)) \<and>
   (\<exists>b. list_all isspace b \<and>
      spec_collapse_ws t =
        (if t \<noteq> [] \<and> isspace (hd t) then [32] else []) @ str_join [32] (split_from [] t) @ b)"
proof (induction t rule: spec_collapse_ws.induct)
  case 1
  show ?case by (simp add: is_word_def)
next
  case (2 c cs)
  show ?case
  proof (cases "isspace c")
    case True
    let ?t = "dropWhile isspace cs"
    let ?S = "split_from [] cs"
    have lead: "\<not> (?t \<noteq> [] \<and> isspace (hd ?t))"
      using hd_dropWhile [of isspace cs] by blast
    from 2(1) [OF True] lead obtain b where b: "list_all isspace b"
      and eq: "spec_collapse_ws ?t = str_join [32] ?S @ b"
      by (auto simp: split_skip_ws)
    have c: "spec_collapse_ws (c # cs) = 32 # str_join [32] ?S @ b"
      using True eq by simp
    have part2: "\<exists>b. list_all isspace b \<and>
      spec_collapse_ws (c # cs) =
        (if c # cs \<noteq> [] \<and> isspace (hd (c # cs)) then [32] else []) @
        str_join [32] (split_from [] (c # cs)) @ b"
      using True b c by auto
    have part1: "\<exists>b'. list_all isspace b' \<and>
        w @ spec_collapse_ws (c # cs) = str_join [32] (split_from w (c # cs)) @ b'"
      if w: "is_word w" for w
    proof (cases "?S = []")
      case True
      have "list_all isspace (32 # b)" using b by (simp add: isspace_32)
      moreover have "w @ spec_collapse_ws (c # cs) = str_join [32] (split_from w (c # cs)) @ 32 # b"
        using w \<open>isspace c\<close> True c by (simp add: is_word_def)
      ultimately show ?thesis by blast
    next
      case False
      have "w @ spec_collapse_ws (c # cs) = str_join [32] (split_from w (c # cs)) @ b"
        using w \<open>isspace c\<close> c by (simp add: is_word_def str_join_Cons [OF False])
      with b show ?thesis by blast
    qed
    from part1 part2 show ?thesis by blast
  next
    case False
    have word_snoc: "is_word (w @ [c])" if "w = [] \<or> is_word w" for w
      using that False by (auto simp: is_word_def)
    from 2(2) [OF False] have ih:
      "\<And>w. is_word w \<Longrightarrow>
         \<exists>b. list_all isspace b \<and> w @ spec_collapse_ws cs = str_join [32] (split_from w cs) @ b"
      by blast
    have part1: "\<exists>b. list_all isspace b \<and>
        w @ spec_collapse_ws (c # cs) = str_join [32] (split_from w (c # cs)) @ b"
      if w: "is_word w" for w
      using ih [OF word_snoc [of w]] w False by simp
    have part2: "\<exists>b. list_all isspace b \<and>
      spec_collapse_ws (c # cs) =
        (if c # cs \<noteq> [] \<and> isspace (hd (c # cs)) then [32] else []) @
        str_join [32] (split_from [] (c # cs)) @ b"
      using ih [OF word_snoc [of "[]"]] False by simp
    from part1 part2 show ?thesis by blast
  qed
qed

lemma str_strip_padding:
  assumes a: "list_all isspace a" and b: "list_all isspace b"
  shows "str_strip (a @ s @ b) = str_strip s"
proof -
  have 1: "dropWhile isspace (a @ s @ b) = dropWhile isspace (s @ b)"
    using a by (intro dropWhile_append2) (simp add: list_all_iff)
  have rb: "dropWhile isspace (rev b @ u) = dropWhile isspace u" for u
    using b by (intro dropWhile_append2) (simp add: list_all_iff)
  show ?thesis
  proof (cases "list_all isspace s")
    case True
    then have l: "dropWhile isspace (s @ b) = []"
      using b by (auto simp: list_all_iff)
    from True have r: "dropWhile isspace s = []" by (auto simp: list_all_iff)
    show ?thesis by (simp only: str_strip_def 1 l r)
  next
    case False
    then obtain x where "x \<in> set s" "\<not> isspace x" by (auto simp: list_all_iff)
    then have "dropWhile isspace (s @ b) = dropWhile isspace s @ b"
      by (rule dropWhile_append1)
    then show ?thesis by (simp add: str_strip_def 1 rb)
  qed
qed

lemma not_isspace_parens: "\<not> isspace 40" "\<not> isspace 41"
  by (simp_all add: isspace_def)

lemma spec_strip_parens_ws: "list_all isspace b \<Longrightarrow> spec_strip_parens b = b"
  unfolding spec_strip_parens_def by (induction b) (auto simp: not_isspace_parens)

lemma spec_strip_parens_append: "spec_strip_parens (a @ b) = spec_strip_parens a @ spec_strip_parens b"
  by (simp add: spec_strip_parens_def)

lemma str_replace_parens: "str_replace 41 [] (str_replace 40 [] s) = spec_strip_parens s"
  unfolding str_replace_empty spec_strip_parens_def by (induction s) auto

lemma clean_str_eq_spec: "clean_str s = spec_sanitize s"
proof -
  let ?r = "spec_remove_spans s"
  let ?j = "str_join [32] (str_split ?r)"
  from spec_collapse_ws_split [of ?r] obtain b where b: "list_all isspace b"
    and eq: "spec_collapse_ws ?r =
       (if ?r \<noteq> [] \<and> isspace (hd ?r) then [32] else []) @ ?j @ b"
    unfolding str_split_def by blast
  define a where "a = (if ?r \<noteq> [] \<and> isspace (hd ?r) then [32::nat] else [])"
  have a: "list_all isspace a" by (simp add: a_def isspace_32)
  have "spec_strip_parens (spec_collapse_ws ?r) = a @ spec_strip_parens ?j @ b"
    unfolding eq a_def [symmetric]
    by (simp add: spec_strip_parens_append spec_strip_parens_ws a b)
  then have "spec_sanitize s = str_strip (spec_strip_parens ?j)"
    using str_strip_padding [OF a b]
    by (simp add: spec_sanitize_def spec_trim_def str_strip_def)
  moreover have "clean_str s = str_strip (spec_strip_parens ?j)"
  proof (cases "s = []")
    case True
    then show ?thesis
      by (simp add: clean_str_def spec_remove_spans_Nil str_split_def spec_strip_parens_def str_strip_def)
  next
    case False
    then show ?thesis
      by (simp add: clean_str_def str_replace_parens re_sub_span_eq_spec)
  qed
  ultimately show ?thesis by simp
qed

lemma clean_str_whitespace:
  assumes "c \<in> set (clean_str s)" "isspace c"
  shows "c = 32"
proof (cases "s = []")
  case True
  with assms show ?thesis by (simp add: clean_str_def)
next
  case False
  let ?j = "str_join [32] (str_split (re_sub_span s))"
  from assms(1) False have "c \<in> set (str_strip (str_replace 41 [] (str_replace 40 [] ?j)))"
    by (simp add: clean_str_def)
  with set_str_strip have "c \<in> set (str_replace 41 [] (str_replace 40 [] ?j))" by blast
  then have "c \<in> set ?j" by (simp add: str_replace_empty)
  with set_str_join [of "[32]" "str_split (re_sub_span s)"]
  have "c = 32 \<or> (\<exists>w \<in> set (str_split (re_sub_span s)). c \<in> set w)" by auto
  moreover have "\<not> (\<exists>w \<in> set (str_split (re_sub_span s)). c \<in> set w)"
    using str_split_words [of "re_sub_span s"] assms(2)
    by (auto simp: list_all_iff is_word_def)
  ultimately show ?thesis by blast
qed

lemma isspace_10: "isspace 10"
  by (simp add: isspace_def)

lemma no_newline_clean: "10 \<notin> set (format_value (clean_text_content v))"
proof (cases v)
  case PNone
  then show ?thesis by (simp add: py_def)
next
  case (PStr s)
  have "10 \<notin> set (clean_str s)"
    using clean_str_whitespace [of 10 s] isspace_10 by auto
  with PStr show ?thesis by simp
qed

section \<open>Properties of the composer and the page\<close>

lemma generate_content_cases:
  "fst (fst (generate_linkedin_post e tr found cp k lang)) = PNone \<or>
   (\<exists>r. fst (fst (generate_linkedin_post e tr found cp k lang)) = PStr (clean_str r))"
  by (auto simp: generate_linkedin_post_def Let_def split: sum.splits)

lemma generate_call:
  "k \<noteq> [] \<Longrightarrow>
   snd (generate_linkedin_post e tr found style k lang) =
     tr @ [Gpt4_invoke k (base_prompt found style (str_strip lang))]"
  by (simp add: generate_linkedin_post_def Let_def split: sum.splits)

lemma generate_variations_sanitized:
  "list_all sanitized_post posts \<Longrightarrow>
   list_all sanitized_post (fst (generate_variations e now found cp k sel idx (posts, tr)))"
proof (induction idx arbitrary: posts tr)
  case Nil
  then show ?case by simp
next
  case (Cons i rest)
  obtain pc pe tr' where g:
    "generate_linkedin_post e tr found (variation_prompt cp i) k (clean_str sel) = ((pc, pe), tr')"
    by (metis prod.exhaust)
  let ?new = "\<lparr>content = pc, timestamp = now,
         variation = py ''Variation '' @ str_nat (i + 1), language = clean_str sel\<rparr>"
  from generate_content_cases [of e tr found "variation_prompt cp i" k "clean_str sel"] g
  have "pc = PNone \<or> (\<exists>r. pc = PStr (clean_str r))" by simp
  then have "truthy pc \<Longrightarrow> sanitized_post ?new"
    by (auto simp: sanitized_post_def)
  with Cons.prems have "list_all sanitized_post (if truthy pc then posts @ [?new] else posts)"
    by simp
  from Cons.IH [OF this] g show ?case by simp
qed

lemma generate_variations_calls:
  "k \<noteq> [] \<Longrightarrow>
   snd (generate_variations e now found cp k sel idx (posts, tr)) =
     tr @ map (\<lambda>i. Gpt4_invoke k
                 (base_prompt found (variation_prompt cp i) (str_strip (clean_str sel)))) idx"
proof (induction idx arbitrary: posts tr)
  case Nil
  then show ?case by simp
next
  case (Cons i rest)
  obtain pc pe tr' where g:
    "generate_linkedin_post e tr found (variation_prompt cp i) k (clean_str sel) = ((pc, pe), tr')"
    by (metis prod.exhaust)
  with generate_call [OF Cons.prems, of e tr found "variation_prompt cp i" "clean_str sel"]
  have "tr' = tr @ [Gpt4_invoke k
      (base_prompt found (variation_prompt cp i) (str_strip (clean_str sel)))]" by simp
  with Cons.IH [OF Cons.prems] g show ?case by simp
qed

lemma search_button_posts:
  "generated_posts (search_button e now w a) = generated_posts a \<or>
   (\<exists>found tr. generated_posts (search_button e now w a) =
      fst (generate_variations e now found (custom_prompt w) (openai_api_key w)
             (selected_language w) [0, 1, 2] ([], tr)))"
proof -
  obtain found err ch tr where c:
    "cached_search_web_content e now (search_cache a, calls a)
       (search_query w) (search_type w) (serper_api_key w) (num_results w) =
     ((found, err), ch, tr)"
    by (metis prod.exhaust)
  show ?thesis
  proof (cases "search_query w = [] \<or> serper_api_key w = [] \<or> openai_api_key w = [] \<or>
      truthy err \<or> found = None")
    case True
    then have "generated_posts (search_button e now w a) = generated_posts a"
      by (auto simp: search_button_def show_event_def c Let_def)
    then show ?thesis ..
  next
    case False
    then obtain json where j: "found = Some json" by auto
    have "generated_posts (search_button e now w a) =
      fst (generate_variations e now json (custom_prompt w) (openai_api_key w)
             (selected_language w) [0, 1, 2] ([], tr))"
      using False
      by (simp add: search_button_def show_event_def c j Let_def split: prod.splits
          del: generate_variations.simps)
    then show ?thesis by blast
  qed
qed

lemma field_shown_eq:
  "format_value (clean_text_content (dict_get it k (PStr []))) = field_shown (it k)"
proof (cases "it k")
  case None
  then show ?thesis by (simp add: dict_get_def field_shown_def clean_str_def)
next
  case (Some v)
  then show ?thesis by (cases v) (simp_all add: dict_get_def field_shown_def)
qed

lemma summarize_items_eq:
  "summarize_items its (s, l) =
     (s @ concat (map summary_line its), l @ concat (map item_link its))"
proof (induction its arbitrary: s l)
  case Nil
  then show ?case by simp
next
  case (Cons it its)
  have "(case it (py ''link'') of
           Some (PStr x) \<Rightarrow> if x \<noteq> [] then l @ [x] else l | _ \<Rightarrow> l) = l @ item_link it"
    by (simp add: item_link_def split: option.splits pyval.splits)
  moreover have "py '': '' = [58, 32]" by (simp add: py_def)
  ultimately show ?case
    by (simp add: Cons.IH summary_line_def field_shown_eq Let_def)
qed

lemma extract_content_eq:
  "extract_content cd =
     (concat (map summary_line (items_used cd)), concat (map item_link (items_used cd)))"
  by (simp add: extract_content_def items_used_def summarize_items_eq Let_def
      split: option.splits)

lemma no_newline_field: "10 \<notin> set (field_shown v)"
  using no_newline_clean [of "dict_get (\<lambda>k::pystr. v) [] (PStr [])"]
  by (simp add: field_shown_eq)

lemma summary_line_one_newline: "count_list (summary_line it) 10 = 1"
proof -
  have "count_list (field_shown v) 10 = 0" for v
    using no_newline_field [of v] by (simp add: count_list_0_iff)
  then show ?thesis by (simp add: summary_line_def)
qed

lemma count_newlines_summary:
  "count_list (concat (map summary_line its)) 10 = length its"
  by (induction its) (simp_all add: summary_line_one_newline)

text \<open>
  On a JSON value that follows the schema, the lines before the \<open>try\<close> block raise
  nothing, and \<open>generate_linkedin_post\<close> on the value is \<open>generate_linkedin_post\<close> on
  the result set it is.
\<close>

lemma field_text_ok:
  "field_ok (map_of d k) \<Longrightarrow>
   field_text (dict_get (map_of d) k (JStr [])) = Inr (field_shown (field_view (map_of d k)))"
  by (auto simp: field_ok_def field_view_def field_shown_def dict_get_def clean_str_def
      split: option.splits json_value.splits)

lemma link_ok:
  "field_ok (map_of d (py ''link'')) \<Longrightarrow>
   (if truthy_json (dict_get (map_of d) (py ''link'') JNull)
    then links @ [dict_get (map_of d) (py ''link'') JNull] else links) =
   links @ map JStr (item_link (item_view (JDict d)))"
  by (auto simp: field_ok_def field_view_def item_link_def item_view_def dict_get_def
      split: option.splits json_value.splits)

lemma summary_line_view:
  "summary_line (item_view (JDict d)) =
     [8226, 32] @ field_shown (field_view (map_of d (py ''title''))) @ [58, 32] @
     field_shown (field_view (map_of d (py ''snippet''))) @ [10]"
  by (simp add: summary_line_def item_view_def)

lemma summarize_items_json_ok:
  "list_all item_ok xs \<Longrightarrow>
   summarize_items_json xs (s, map JStr l) =
     Inr (s @ concat (map summary_line (map item_view xs)),
          map JStr (l @ concat (map item_link (map item_view xs))))"
proof (induction xs arbitrary: s l)
  case Nil
  then show ?case by simp
next
  case (Cons x xs)
  from Cons.prems obtain d where x: "x = JDict d"
    and t: "field_ok (map_of d (py ''title''))"
    and n: "field_ok (map_of d (py ''snippet''))"
    and k: "field_ok (map_of d (py ''link''))"
    by (auto simp: item_ok_def split: json_value.splits)
  from Cons.prems have rest: "list_all item_ok xs" by simp
  have colon: "py '': '' = [58, 32]" by (simp add: py_def)
  have "summarize_items_json (x # xs) (s, map JStr l) =
        summarize_items_json xs
          (s @ summary_line (item_view x), map JStr (l @ item_link (item_view x)))"
    unfolding x
    by (simp add: field_text_ok [OF t] field_text_ok [OF n] link_ok [OF k] summary_line_view
        colon Let_def)
  also have "\<dots> =
     Inr (s @ summary_line (item_view x) @ concat (map summary_line (map item_view xs)),
          map JStr (l @ item_link (item_view x) @ concat (map item_link (map item_view xs))))"
    using Cons.IH [OF rest, of "s @ summary_line (item_view x)" "l @ item_link (item_view x)"]
    by simp
  finally show ?case by simp
qed

lemma section_items_ok:
  "section_ok (map_of d key) \<Longrightarrow>
   \<exists>xs. section_items (JDict d) key n = Inr (take n xs) \<and> list_all item_ok xs \<and>
        take n (case section_view (map_of d key) of Some ys \<Rightarrow> ys | None \<Rightarrow> []) =
          map item_view (take n xs)"
  by (auto simp: section_ok_def section_view_def take_map
      split: option.splits json_value.splits)

lemma extract_content_json_ok:
  assumes "results_ok j"
  shows "extract_content_json j =
     Inr (concat (map summary_line (items_used (results_view j))),
          map JStr (concat (map item_link (items_used (results_view j)))))"
proof -
  from assms obtain d where j: "j = JDict d"
    and o: "section_ok (map_of d (py ''organic''))"
    and n: "section_ok (map_of d (py ''news''))"
    by (auto simp: results_ok_def split: json_value.splits)
  from section_items_ok [OF o, of 5] obtain xs where xs:
    "section_items (JDict d) (py ''organic'') 5 = Inr (take 5 xs)" "list_all item_ok xs"
    "take 5 (case section_view (map_of d (py ''organic'')) of Some ys \<Rightarrow> ys | None \<Rightarrow> []) =
       map item_view (take 5 xs)"
    by blast
  from section_items_ok [OF n, of 3] obtain ys where ys:
    "section_items (JDict d) (py ''news'') 3 = Inr (take 3 ys)" "list_all item_ok ys"
    "take 3 (case section_view (map_of d (py ''news'')) of Some ys \<Rightarrow> ys | None \<Rightarrow> []) =
       map item_view (take 3 ys)"
    by blast
  have ok5: "list_all item_ok (take 5 xs)" and ok3: "list_all item_ok (take 3 ys)"
    using xs(2) ys(2) by (auto simp: list_all_iff dest: in_set_takeD)
  have used: "items_used (results_view j) = map item_view (take 5 xs) @ map item_view (take 3 ys)"
    by (simp add: items_used_def results_view_def j xs(3) ys(3))
  have first: "summarize_items_json (take 5 xs) ([], []) =
      Inr (concat (map summary_line (map item_view (take 5 xs))),
           map JStr (concat (map item_link (map item_view (take 5 xs)))))"
    using summarize_items_json_ok [OF ok5, of "[]" "[]"] by simp
  show ?thesis
    unfolding extract_content_json_def j xs(1) ys(1)
    by (simp add: first summarize_items_json_ok [OF ok3] used [unfolded j])
qed

lemma join_links_strings: "join_links (map JStr ls) = Inr ls"
  by (induction ls) simp_all

lemma generate_json_ok:
  assumes "results_ok j"
  shows "generate_linkedin_post_json e tr j style k lang =
     Inr (generate_linkedin_post e tr (results_view j) style k lang)"
proof (cases "k = []")
  case True
  then show ?thesis
    by (simp add: generate_linkedin_post_json_def generate_linkedin_post_def)
next
  case False
  let ?links = "concat (map item_link (items_used (results_view j)))"
  let ?p = "base_prompt_part1 @ str_strip lang @ base_prompt_part2 @ str_strip lang @
      base_prompt_part3 @ concat (map summary_line (items_used (results_view j))) @
      base_prompt_part4 @ str_join [10] (take 3 ?links) @ base_prompt_part5 @
      (if style \<noteq> [] then style else []) @ base_prompt_part6"
  have links: "join_links (take 3 (map JStr ?links)) = Inr (take 3 ?links)"
    by (simp add: take_map join_links_strings)
  have bp: "base_prompt (results_view j) style (str_strip lang) = ?p"
    by (simp add: base_prompt_def extract_content_eq)
  show ?thesis
  proof (cases "gpt4_reply e tr (Gpt4_invoke k ?p)")
    case (Inl x)
    then show ?thesis
      using False
      by (simp add: generate_linkedin_post_json_def generate_linkedin_post_def
          extract_content_json_ok [OF assms] links bp Let_def)
  next
    case (Inr r)
    then show ?thesis
      using False
      by (simp add: generate_linkedin_post_json_def generate_linkedin_post_def
          extract_content_json_ok [OF assms] links bp Let_def)
  qed
qed

text \<open>The definitions a concrete reading of a JSON value unfolds.\<close>

lemmas json_defs = sample_json_def results_ok_def section_ok_def item_ok_def field_ok_def
  results_view_def section_view_def item_view_def field_view_def items_used_def
  summary_line_def item_link_def field_shown_def list_all_iff

lemma generate_variations_upt:
  assumes k: "k \<noteq> []"
  shows "m \<le> n \<Longrightarrow>
    generate_variations e now found style k sel [m..<n]
      (posts, tr @ map (variation_call found style k sel) [0..<m]) =
    (posts @ map (\<lambda>i. variation_post now sel (fst (variation_result e tr found style k sel i)) i)
               (filter (\<lambda>i. truthy (fst (variation_result e tr found style k sel i))) [m..<n]),
     tr @ map (variation_call found style k sel) [0..<n])"
proof (induction "n - m" arbitrary: m posts)
  case 0
  then show ?case by simp
next
  case (Suc d)
  then have lt: "m < n" and d: "d = n - Suc m" and le: "Suc m \<le> n" by simp_all
  let ?tr = "tr @ map (variation_call found style k sel) [0..<m]"
  obtain pc pe tr' where g:
    "generate_linkedin_post e ?tr found (variation_prompt style m) k (clean_str sel) =
       ((pc, pe), tr')"
    by (metis prod.exhaust)
  have pc: "fst (variation_result e tr found style k sel m) = pc"
    by (simp add: variation_result_def g)
  have tr': "tr' = tr @ map (variation_call found style k sel) [0..<Suc m]"
    using generate_call [OF k, of e ?tr found "variation_prompt style m" "clean_str sel"] g
    by (simp add: variation_call_def)
  have "generate_variations e now found style k sel [m..<n] (posts, ?tr) =
     generate_variations e now found style k sel [Suc m..<n]
       (if truthy pc then posts @ [variation_post now sel pc m] else posts, tr')"
    using lt g by (simp add: upt_conv_Cons variation_post_def)
  also have "\<dots> =
     ((if truthy pc then posts @ [variation_post now sel pc m] else posts) @
        map (\<lambda>i. variation_post now sel (fst (variation_result e tr found style k sel i)) i)
          (filter (\<lambda>i. truthy (fst (variation_result e tr found style k sel i))) [Suc m..<n]),
      tr @ map (variation_call found style k sel) [0..<n])"
    unfolding tr' by (rule Suc.hyps(1) [OF d le])
  finally show ?case
    using lt by (simp add: upt_conv_Cons pc)
qed

lemma upt_3: "[0..<3] = [0, 1, 2]"
  by (simp add: upt_rec numeral_3_eq_3)

lemma generate_variations_three:
  assumes k: "k \<noteq> []"
  shows "generate_variations e now found style k sel [0, 1, 2] ([], tr) =
    (map (\<lambda>i. variation_post now sel (fst (variation_result e tr found style k sel i)) i)
       (filter (\<lambda>i. truthy (fst (variation_result e tr found style k sel i))) [0, 1, 2]),
     tr @ map (variation_call found style k sel) [0, 1, 2])"
  using generate_variations_upt [OF k, of 0 3 e now found style sel "[]" tr]
  by (simp only: upt_3 upt_0 list.map append_Nil2 append_Nil le0)

lemma map_content_variation_post:
  "map content (map (\<lambda>i. variation_post now sel (f i) i) (filter (\<lambda>i. truthy (f i)) idx)) =
   filter truthy (map f idx)"
  by (induction idx) (simp_all add: variation_post_def)

section \<open>The claims about the sanitizer\<close>

text \<open>
  Claim C6. The sanitizer is not idempotent. It collapses the whitespace before it
  deletes the parentheses that are left, so a stray parenthesis between two spaces
  leaves both of them, and only the ends are stripped afterwards: sanitizing
  \<open>a ) b\<close> gives \<open>a  b\<close> with two spaces, and sanitizing that gives \<open>a b\<close>.
\<close>

theorem sanitize_not_idempotent:
  "clean_text_content (PStr (py ''a ) b'')) = PStr (py ''a  b'') \<and>
   clean_text_content (clean_text_content (PStr (py ''a ) b''))) = PStr (py ''a b'') \<and>
   clean_text_content (clean_text_content (PStr (py ''a ) b''))) \<noteq>
     clean_text_content (PStr (py ''a ) b''))"
  by (simp add: run_defs)

text \<open>
  Claim C7. On every string the sanitizer computes what the specification describes:
  the spans from an opening parenthesis to the next closing one removed, every
  whitespace run collapsed to one space, the parentheses left stripped, the ends
  trimmed. \<open>None\<close> and the empty string are returned unchanged (the second conjunct
  is the specification's example of the empty string), and the other four examples of
  the specification hold (the last one has two newlines, two spaces and a tab).
\<close>

theorem clean_text_content_spec:
  "clean_text_content PNone = PNone \<and>
   clean_text_content (PStr []) = PStr [] \<and>
   (\<forall>s. clean_text_content (PStr s) = PStr (spec_sanitize s)) \<and>
   clean_text_content (PStr (py ''Hello (world) there'')) = PStr (py ''Hello there'') \<and>
   clean_text_content (PStr (py ''a(b)c(d)e'')) = PStr (py ''ace'') \<and>
   clean_text_content (PStr (py ''no parens'')) = PStr (py ''no parens'') \<and>
   clean_text_content (PStr (py ''a\<newline>\<newline>  b'' @ [9] @ py ''c'')) = PStr (py ''a b c'')"
proof -
  have "\<forall>s. clean_text_content (PStr s) = PStr (spec_sanitize s)"
    by (simp add: clean_str_eq_spec)
  moreover have "clean_text_content (PStr (py ''Hello (world) there'')) = PStr (py ''Hello there'')"
    by (simp add: run_defs)
  moreover have "clean_text_content (PStr (py ''a(b)c(d)e'')) = PStr (py ''ace'')"
    by (simp add: run_defs)
  moreover have "clean_text_content (PStr (py ''no parens'')) = PStr (py ''no parens'')"
    by (simp add: run_defs)
  moreover have
    "clean_text_content (PStr (py ''a\<newline>\<newline>  b'' @ [9] @ py ''c'')) = PStr (py ''a b c'')"
    by (simp add: run_defs)
  ultimately show ?thesis by (simp add: clean_str_def)
qed

theorem clean_text_content_spec_witness:
  "spec_sanitize (py ''(note) keep  (this'') = py ''keep this''"
proof -
  have "PStr (spec_sanitize (py ''(note) keep  (this'')) =
        clean_text_content (PStr (py ''(note) keep  (this''))"
    using clean_text_content_spec by simp
  also have "\<dots> = PStr (py ''keep this'')" by (simp add: run_defs)
  finally show ?thesis by simp
qed

section \<open>The claims about the page and the services\<close>

text \<open>
  Claim C1. Every post the search handler stores has a content that came out of the
  sanitizer when it was created. The copy handler shows, and the upload handler hands
  to the publish agent (inside the task text, when the agent is run at all), the
  sanitized form of the text area's value, whatever the user typed; that string has no
  opening and no closing parenthesis.
\<close>

theorem sanitized_at_output_boundary:
  "(\<forall>p \<in> set (generated_posts (search_button e now w a)).
      p \<in> set (generated_posts a) \<or>
      (\<exists>r. content p = clean_text_content (PStr r) \<and>
           40 \<notin> set (clean_str r) \<and> 41 \<notin> set (clean_str r))) \<and>
   shown (copy_button edited a) =
     shown a @ [St_code (clean_str edited),
                St_success ([9989] @ py '' Post copied! You can now paste it anywhere.'')] \<and>
   (calls (upload_button e w p edited a) = calls a \<or>
    calls (upload_button e w p edited a) =
      calls a @ [Agent_setup (composio_api_key w) (openai_api_key w)] \<or>
    calls (upload_button e w p edited a) =
      calls a @ [Agent_setup (composio_api_key w) (openai_api_key w),
                 Agent_invoke (composio_api_key w) (openai_api_key w)
                   (task (linkedin_author_urn w) (clean_str edited))]) \<and>
   clean_text_content (PStr edited) = PStr (clean_str edited) \<and>
   40 \<notin> set (clean_str edited) \<and> 41 \<notin> set (clean_str edited)"
proof -
  have posts: "p \<in> set (generated_posts a) \<or>
      (\<exists>r. content p = clean_text_content (PStr r) \<and>
           40 \<notin> set (clean_str r) \<and> 41 \<notin> set (clean_str r))"
    if p: "p \<in> set (generated_posts (search_button e now w a))" for p
  proof (cases "generated_posts (search_button e now w a) = generated_posts a")
    case True
    with p show ?thesis by simp
  next
    case False
    with search_button_posts [of e now w a] obtain found tr where
      "generated_posts (search_button e now w a) =
         fst (generate_variations e now found (custom_prompt w) (openai_api_key w)
                (selected_language w) [0, 1, 2] ([], tr))"
      by blast
    moreover have "list_all sanitized_post
         (fst (generate_variations e now found (custom_prompt w) (openai_api_key w)
                (selected_language w) [0, 1, 2] ([], tr)))"
      by (rule generate_variations_sanitized) simp
    ultimately have "sanitized_post p" using p by (simp add: list_all_iff)
    then show ?thesis using clean_str_no_parens by (auto simp: sanitized_post_def)
  qed
  have copy: "shown (copy_button edited a) =
     shown a @ [St_code (clean_str edited),
                St_success ([9989] @ py '' Post copied! You can now paste it anywhere.'')]"
    by (simp add: copy_button_def show_event_def)
  have upload: "calls (upload_button e w p edited a) = calls a \<or>
    calls (upload_button e w p edited a) =
      calls a @ [Agent_setup (composio_api_key w) (openai_api_key w)] \<or>
    calls (upload_button e w p edited a) =
      calls a @ [Agent_setup (composio_api_key w) (openai_api_key w),
                 Agent_invoke (composio_api_key w) (openai_api_key w)
                   (task (linkedin_author_urn w) (clean_str edited))]"
    by (auto simp: upload_button_def upload_to_linkedin_def show_event_def Let_def
        split: sum.splits option.splits)
  from posts copy upload clean_str_no_parens [of edited] show ?thesis by simp
qed

theorem sanitized_at_output_boundary_witness:
  "map content (generated_posts
      (search_button (sample_env (py ''Big news (really)!'')) 0 sample_widgets initial_app)) =
     [PStr (py ''Big news !''), PStr (py ''Big news !''), PStr (py ''Big news !'')] \<and>
   shown (copy_button (py ''Draft (v2) text'') initial_app) =
     [St_code (py ''Draft text''),
      St_success ([9989] @ py '' Post copied! You can now paste it anywhere.'')] \<and>
   calls (upload_button (sample_env (py ''Big news (really)!'')) sample_widgets sample_post
            (py ''Draft (v2) text'') initial_app) =
     [Agent_setup (py ''ck'') (py ''ok''),
      Agent_invoke (py ''ck'') (py ''ok'') (task (py ''urn:li:person:1'') (py ''Draft text''))]"
  using sanitized_at_output_boundary [of "sample_env (py ''Big news (really)!'')" 0
      sample_widgets initial_app "py ''Draft (v2) text''" sample_post]
  by (simp add: page_defs run_defs)

text \<open>
  Claim C2 (as amended). When the author identity is empty, or the Composio key is,
  the upload handler shows the error that asks for it and does nothing else:
  \<open>upload_to_linkedin\<close> is not entered and no call is made.
\<close>

theorem publish_rejects_empty_identity:
  "composio_api_key w = [] \<or> linkedin_author_urn w = [] \<longrightarrow>
     calls (upload_button e w p edited a) = calls a \<and>
     shown (upload_button e w p edited a) =
       shown a @
       [St_error
          (if composio_api_key w = [] then py ''Please provide Composio API key in the sidebar''
           else py ''Please provide LinkedIn Author URN in the sidebar'')] \<and>
     generated_posts (upload_button e w p edited a) = generated_posts a"
  by (auto simp: upload_button_def show_event_def Let_def)

theorem publish_rejects_empty_identity_witness:
  "linkedin_author_urn (sample_widgets\<lparr>linkedin_author_urn := []\<rparr>) = [] \<and>
   calls (upload_button (sample_env []) (sample_widgets\<lparr>linkedin_author_urn := []\<rparr>)
            sample_post (py ''Draft'') initial_app) = [] \<and>
   shown (upload_button (sample_env []) (sample_widgets\<lparr>linkedin_author_urn := []\<rparr>)
            sample_post (py ''Draft'') initial_app) =
     [St_error (py ''Please provide LinkedIn Author URN in the sidebar'')]"
  using publish_rejects_empty_identity [of "sample_widgets\<lparr>linkedin_author_urn := []\<rparr>"
      "sample_env []" sample_post "py ''Draft''" initial_app]
  by (simp add: sample_widgets_def initial_app_def py_def)

text \<open>
  Claim C2 as stated fails for the content: with the key and the author identity
  present and services that answer, an empty text area, or one whose text sanitizes
  to the empty string, is handed to the agent, and the page reports the upload as done.
\<close>

theorem publish_accepts_empty_content:
  "linkedin_author_urn sample_widgets = py ''urn:li:person:1'' \<and>
   clean_str [] = [] \<and>
   calls (upload_button (sample_env []) sample_widgets sample_post [] initial_app) =
     [Agent_setup (py ''ck'') (py ''ok''),
      Agent_invoke (py ''ck'') (py ''ok'') (task (py ''urn:li:person:1'') [])] \<and>
   clean_str (py ''(draft)'') = [] \<and>
   calls (upload_button (sample_env []) sample_widgets sample_post (py ''(draft)'') initial_app) =
     [Agent_setup (py ''ck'') (py ''ok''),
      Agent_invoke (py ''ck'') (py ''ok'') (task (py ''urn:li:person:1'') [])] \<and>
   shown (upload_button (sample_env []) sample_widgets sample_post (py ''(draft)'') initial_app) =
     [St_markdown (success_box_part1 @ py ''English'' @ success_box_part2)]"
  by (simp add: page_defs run_defs)




text \<open>
  Claim C4 (as amended). When the search has succeeded, the handler makes exactly the
  three model calls, whatever the earlier ones returned. The posts stored are the
  returned contents that are not empty, in order (at most three), and the handler
  reports success exactly when one of the three passes returned a non-empty content;
  otherwise it reports that the generation failed.
\<close>

theorem variants_collected_amended:
  "search_query w \<noteq> [] \<and> serper_api_key w \<noteq> [] \<and> openai_api_key w \<noteq> [] \<and>
   cached_search_web_content e now (search_cache a, calls a) (search_query w) (search_type w)
     (serper_api_key w) (num_results w) = ((Some json, err), ch, tr) \<and>
   \<not> truthy err \<longrightarrow>
   (let a' = search_button e now w a;
        res = map (variation_result e tr json (custom_prompt w) (openai_api_key w)
                     (selected_language w)) [0, 1, 2]
    in calls a' =
         tr @ map (variation_call json (custom_prompt w) (openai_api_key w)
                     (selected_language w)) [0, 1, 2] \<and>
       map content (generated_posts a') = filter truthy (map fst res) \<and>
       length (generated_posts a') \<le> 3 \<and>
       ((\<exists>m. last (shown a') = St_success m) \<longleftrightarrow> (\<exists>r \<in> set res. truthy (fst r))) \<and>
       (last (shown a') =
          St_error (py ''Failed to generate posts. Please check your API keys and try again.'')
        \<longleftrightarrow> \<not> (\<exists>r \<in> set res. truthy (fst r))))"
proof (intro impI)
  assume h: "search_query w \<noteq> [] \<and> serper_api_key w \<noteq> [] \<and> openai_api_key w \<noteq> [] \<and>
   cached_search_web_content e now (search_cache a, calls a) (search_query w) (search_type w)
     (serper_api_key w) (num_results w) = ((Some json, err), ch, tr) \<and>
   \<not> truthy err"
  let ?f = "\<lambda>i. fst (variation_result e tr json (custom_prompt w) (openai_api_key w)
                     (selected_language w) i)"
  let ?posts = "map (\<lambda>i. variation_post now (selected_language w) (?f i) i)
       (filter (\<lambda>i. truthy (?f i)) [0, 1, 2])"
  let ?tr = "tr @ map (variation_call json (custom_prompt w) (openai_api_key w)
                     (selected_language w)) [0, 1, 2]"
  from h have k: "openai_api_key w \<noteq> []" by simp
  have gv: "generate_variations e now json (custom_prompt w) (openai_api_key w)
      (selected_language w) [0, 1, 2] ([], tr) = (?posts, ?tr)"
    by (rule generate_variations_three [OF k])
  have calls: "calls (search_button e now w a) = ?tr"
    using h by (simp add: search_button_def show_event_def gv Let_def
        del: generate_variations.simps One_nat_def)
  have posts: "generated_posts (search_button e now w a) = ?posts"
    using h by (simp add: search_button_def show_event_def gv Let_def
        del: generate_variations.simps One_nat_def)
  have last: "last (shown (search_button e now w a)) =
      (if ?posts \<noteq> [] then
         St_success ([9989] @ py '' Generated '' @ str_nat (length ?posts) @
                     py '' post variations in '' @ clean_str (selected_language w) @ py ''!'')
       else St_error (py ''Failed to generate posts. Please check your API keys and try again.''))"
    using h by (simp add: search_button_def show_event_def gv Let_def
        del: generate_variations.simps One_nat_def)
  have nonempty: "?posts \<noteq> [] \<longleftrightarrow> (\<exists>i \<in> {0, 1, 2}. truthy (?f i))"
    by (simp add: filter_empty_conv)
  have content: "map content ?posts = filter truthy (map ?f [0, 1, 2])"
    by (rule map_content_variation_post)
  have len: "length ?posts \<le> 3"
    using length_filter_le [of "\<lambda>i. truthy (?f i)" "[0, 1, 2]"] by simp
  show "let a' = search_button e now w a;
        res = map (variation_result e tr json (custom_prompt w) (openai_api_key w)
                     (selected_language w)) [0, 1, 2]
    in calls a' =
         tr @ map (variation_call json (custom_prompt w) (openai_api_key w)
                     (selected_language w)) [0, 1, 2] \<and>
       map content (generated_posts a') = filter truthy (map fst res) \<and>
       length (generated_posts a') \<le> 3 \<and>
       ((\<exists>m. last (shown a') = St_success m) \<longleftrightarrow> (\<exists>r \<in> set res. truthy (fst r))) \<and>
       (last (shown a') =
          St_error (py ''Failed to generate posts. Please check your API keys and try again.'')
        \<longleftrightarrow> \<not> (\<exists>r \<in> set res. truthy (fst r)))"
    unfolding Let_def calls posts last
    using nonempty content len by (simp add: comp_def)
qed

theorem variants_collected_amended_witness:
  "search_query sample_widgets \<noteq> [] \<and> serper_api_key sample_widgets \<noteq> [] \<and>
   openai_api_key sample_widgets \<noteq> [] \<and>
   cached_search_web_content (sample_env (py ''Post'')) 0
     (search_cache initial_app, calls initial_app) (search_query sample_widgets)
     (search_type sample_widgets) (serper_api_key sample_widgets) (num_results sample_widgets) =
     ((Some sample_results, PNone),
      [(py ''Agentic AI Frameworks'', py ''search'', py ''sk'', 10) \<mapsto>
         \<lparr>stored_at = 0, cached_value = (Some sample_results, PNone)\<rparr>],
      [Serper_post (py ''https://google.serper.dev/search'') (py ''sk'')
         (py ''Agentic AI Frameworks'') 10]) \<and>
   \<not> truthy PNone \<and>
   calls (search_button (sample_env (py ''Post'')) 0 sample_widgets initial_app) =
     [Serper_post (py ''https://google.serper.dev/search'') (py ''sk'')
         (py ''Agentic AI Frameworks'') 10] @
     map (variation_call sample_results (custom_prompt sample_widgets)
            (openai_api_key sample_widgets) (selected_language sample_widgets)) [0, 1, 2] \<and>
   map content (generated_posts
     (search_button (sample_env (py ''Post'')) 0 sample_widgets initial_app)) =
     [PStr (py ''Post''), PStr (py ''Post''), PStr (py ''Post'')]"
proof -
  let ?ch = "[(py ''Agentic AI Frameworks'', py ''search'', py ''sk'', 10) \<mapsto>
         \<lparr>stored_at = 0, cached_value = (Some sample_results, PNone)\<rparr>]"
  let ?tr = "[Serper_post (py ''https://google.serper.dev/search'') (py ''sk'')
         (py ''Agentic AI Frameworks'') 10]"
  have h: "search_query sample_widgets \<noteq> [] \<and> serper_api_key sample_widgets \<noteq> [] \<and>
   openai_api_key sample_widgets \<noteq> [] \<and>
   cached_search_web_content (sample_env (py ''Post'')) 0
     (search_cache initial_app, calls initial_app) (search_query sample_widgets)
     (search_type sample_widgets) (serper_api_key sample_widgets) (num_results sample_widgets) =
     ((Some sample_results, PNone), ?ch, ?tr) \<and>
   \<not> truthy PNone"
    by (simp add: page_defs py_def)
  note t = variants_collected_amended [where w = sample_widgets and e = "sample_env (py ''Post'')"
      and now = 0 and a = initial_app and json = sample_results and err = PNone
      and ch = ?ch and tr = ?tr]
  from t h have c: "calls (search_button (sample_env (py ''Post'')) 0 sample_widgets initial_app) =
     ?tr @ map (variation_call sample_results (custom_prompt sample_widgets)
            (openai_api_key sample_widgets) (selected_language sample_widgets)) [0, 1, 2]"
    unfolding Let_def by blast
  have p: "map content (generated_posts
     (search_button (sample_env (py ''Post'')) 0 sample_widgets initial_app)) =
     [PStr (py ''Post''), PStr (py ''Post''), PStr (py ''Post'')]"
    by (simp add: page_defs run_defs)
  from h c p show ?thesis by blast
qed

text \<open>
  Claim C4 as stated fails: when the model answers \<open>()\<close>, each of the three passes
  returns the empty content and no error, so none has failed; yet no post is stored and
  the handler reports a failure.
\<close>

theorem empty_variants_not_stored:
  "fst (generate_linkedin_post (sample_env (py ''()'')) [] sample_results
          (variation_prompt (custom_prompt sample_widgets) 0) (openai_api_key sample_widgets)
          (clean_str (selected_language sample_widgets))) = (PStr [], PNone) \<and>
   fst (generate_linkedin_post (sample_env (py ''()'')) [] sample_results
          (variation_prompt (custom_prompt sample_widgets) 1) (openai_api_key sample_widgets)
          (clean_str (selected_language sample_widgets))) = (PStr [], PNone) \<and>
   fst (generate_linkedin_post (sample_env (py ''()'')) [] sample_results
          (variation_prompt (custom_prompt sample_widgets) 2) (openai_api_key sample_widgets)
          (clean_str (selected_language sample_widgets))) = (PStr [], PNone) \<and>
   length (calls (search_button (sample_env (py ''()'')) 0 sample_widgets initial_app)) = 4 \<and>
   generated_posts (search_button (sample_env (py ''()'')) 0 sample_widgets initial_app) = [] \<and>
   shown (search_button (sample_env (py ''()'')) 0 sample_widgets initial_app) =
     [St_error (py ''Failed to generate posts. Please check your API keys and try again.'')]"
  by (simp add: page_defs run_defs)

text \<open>
  Claim C5. The content summary is the concatenation of one line per item used: the
  first five organic items, then the first three news items, in their order. A line is
  the bullet, a space, the sanitized title, a colon and a space, the sanitized snippet
  and a newline, its only one; a field the item does not have shows as nothing. The
  links are collected in the same order, and the prompt holds the first three of them.
  With ten organic and five news items the summary is five lines of the organic items
  followed by three of the news items.
\<close>

theorem content_summary_truncated:
  "extract_content cd =
     (concat (map summary_line (items_used cd)), concat (map item_link (items_used cd))) \<and>
   items_used cd =
     take 5 (case cd (py ''organic'') of Some xs \<Rightarrow> xs | None \<Rightarrow> []) @
     take 3 (case cd (py ''news'') of Some xs \<Rightarrow> xs | None \<Rightarrow> []) \<and>
   summary_line it =
     [8226, 32] @ field_shown (it (py ''title'')) @ py '': '' @
     field_shown (it (py ''snippet'')) @ [10] \<and>
   (it (py ''title'') = Some (PStr t) \<and> it (py ''snippet'') = Some (PStr sn) \<longrightarrow>
      summary_line it = [8226, 32] @ clean_str t @ py '': '' @ clean_str sn @ [10]) \<and>
   field_shown None = [] \<and>
   (it (py ''link'') = Some (PStr l) \<and> l \<noteq> [] \<longrightarrow> item_link it = [l]) \<and>
   count_list (fst (extract_content cd)) 10 = length (items_used cd) \<and>
   length (items_used cd) \<le> 8 \<and>
   base_prompt cd style lang =
     base_prompt_part1 @ lang @ base_prompt_part2 @ lang @ base_prompt_part3 @
     fst (extract_content cd) @ base_prompt_part4 @
     str_join [10] (take 3 (snd (extract_content cd))) @ base_prompt_part5 @
     style @ base_prompt_part6 \<and>
   length (take 3 (snd (extract_content cd))) \<le> 3 \<and>
   (cd (py ''organic'') = Some org \<and> cd (py ''news'') = Some nws \<and>
    length org = 10 \<and> length nws = 5 \<longrightarrow>
      fst (extract_content cd) =
        concat (map summary_line (take 5 org)) @ concat (map summary_line (take 3 nws)) \<and>
      count_list (concat (map summary_line (take 5 org))) 10 = 5 \<and>
      count_list (concat (map summary_line (take 3 nws))) 10 = 3)"
proof -
  have 1: "extract_content cd =
     (concat (map summary_line (items_used cd)), concat (map item_link (items_used cd)))"
    by (rule extract_content_eq)
  have 2: "count_list (fst (extract_content cd)) 10 = length (items_used cd)"
    by (simp add: 1 count_newlines_summary)
  have 3: "length (items_used cd) \<le> 8"
    by (simp add: items_used_def)
  have 11: "length (take 3 (snd (extract_content cd))) \<le> 3"
    by simp
  have 4: "base_prompt cd style lang =
     base_prompt_part1 @ lang @ base_prompt_part2 @ lang @ base_prompt_part3 @
     fst (extract_content cd) @ base_prompt_part4 @
     str_join [10] (take 3 (snd (extract_content cd))) @ base_prompt_part5 @
     style @ base_prompt_part6"
    by (simp add: base_prompt_def split: prod.splits)
  have 5: "cd (py ''organic'') = Some org \<and> cd (py ''news'') = Some nws \<and>
    length org = 10 \<and> length nws = 5 \<longrightarrow>
      fst (extract_content cd) =
        concat (map summary_line (take 5 org)) @ concat (map summary_line (take 3 nws)) \<and>
      count_list (concat (map summary_line (take 5 org))) 10 = 5 \<and>
      count_list (concat (map summary_line (take 3 nws))) 10 = 3"
    by (simp add: 1 items_used_def count_newlines_summary)
  have colon: "py '': '' = [58, 32]" by (simp add: py_def)
  have 6: "summary_line it =
     [8226, 32] @ field_shown (it (py ''title'')) @ py '': '' @
     field_shown (it (py ''snippet'')) @ [10]"
    by (simp add: summary_line_def colon)
  have 7: "it (py ''title'') = Some (PStr t) \<and> it (py ''snippet'') = Some (PStr sn) \<longrightarrow>
      summary_line it = [8226, 32] @ clean_str t @ py '': '' @ clean_str sn @ [10]"
    by (simp add: summary_line_def field_shown_def colon)
  have 8: "field_shown None = []"
    by (simp add: field_shown_def)
  have 9: "it (py ''link'') = Some (PStr l) \<and> l \<noteq> [] \<longrightarrow> item_link it = [l]"
    by (simp add: item_link_def)
  have 10: "items_used cd =
     take 5 (case cd (py ''organic'') of Some xs \<Rightarrow> xs | None \<Rightarrow> []) @
     take 3 (case cd (py ''news'') of Some xs \<Rightarrow> xs | None \<Rightarrow> [])"
    by (simp add: items_used_def)
  show ?thesis
    by (intro conjI) (fact 1 2 3 4 5 6 7 8 9 10 11)+
qed

theorem content_summary_truncated_witness:
  "extract_content sample_results =
     ([8226] @ py '' Agents: A survey\<newline>'' @ [8226] @ py '' Frameworks: \<newline>'',
      [py ''https://a.example'']) \<and>
   many_results (py ''organic'') = Some (replicate 10 [py ''title'' \<mapsto> PStr (py ''T (x)'')]) \<and>
   many_results (py ''news'') = Some (replicate 5 [py ''snippet'' \<mapsto> PStr (py ''S'')]) \<and>
   fst (extract_content many_results) =
     concat (replicate 5 ([8226] @ py '' T: \<newline>'')) @
     concat (replicate 3 ([8226] @ py '' : S\<newline>''))"
proof -
  let ?org = "replicate 10 [py ''title'' \<mapsto> PStr (py ''T (x)'')]"
  let ?nws = "replicate 5 [py ''snippet'' \<mapsto> PStr (py ''S'')]"
  have h: "many_results (py ''organic'') = Some ?org \<and> many_results (py ''news'') = Some ?nws \<and>
      length ?org = 10 \<and> length ?nws = 5"
    by (simp add: many_results_def py_def)
  with content_summary_truncated [of many_results _ _ _ _ "[]" "[]" ?org ?nws]
  have "fst (extract_content many_results) =
        concat (map summary_line (take 5 ?org)) @ concat (map summary_line (take 3 ?nws))"
    by blast
  also have "take 5 ?org = replicate 5 [py ''title'' \<mapsto> PStr (py ''T (x)'')]"
    by simp
  also have "take 3 ?nws = replicate 3 [py ''snippet'' \<mapsto> PStr (py ''S'')]"
    by simp
  finally have many: "fst (extract_content many_results) =
     concat (replicate 5 ([8226] @ py '' T: \<newline>'')) @
     concat (replicate 3 ([8226] @ py '' : S\<newline>''))"
    by (simp add: summary_line_def field_shown_def run_defs)
  from content_summary_truncated [of sample_results]
  have "extract_content sample_results =
     (concat (map summary_line (items_used sample_results)),
      concat (map item_link (items_used sample_results)))"
    by blast
  then have small: "extract_content sample_results =
     ([8226] @ py '' Agents: A survey\<newline>'' @ [8226] @ py '' Frameworks: \<newline>'',
      [py ''https://a.example''])"
    by (simp add: sample_results_def items_used_def summary_line_def item_link_def
        field_shown_def run_defs)
  from small h many show ?thesis by blast
qed

text \<open>
  Claim C8. With an empty API key each of the four operations returns \<open>None\<close> and the
  message naming the key that is required, and the list of calls is unchanged; the
  cached search makes no call either.
\<close>

theorem missing_key_no_call:
  "translate_content e tr text lang [] =
     ((PNone, PStr (py ''Sutra API key is required'')), tr) \<and>
   search_web_content e tr q stype [] n =
     ((None, PStr (py ''Serper API key is required'')), tr) \<and>
   snd (snd (cached_search_web_content e now (ch, tr) q stype [] n)) = tr \<and>
   generate_linkedin_post e tr found style [] lang =
     ((PNone, PStr (py ''OpenAI API key is required'')), tr) \<and>
   upload_to_linkedin e tr okey text urn [] =
     ((PNone, PStr (py ''Composio API key is required'')), tr)"
  by (simp add: translate_content_def search_web_content_def cached_search_web_content_def
      generate_linkedin_post_def upload_to_linkedin_def Let_def split: option.splits)

theorem missing_key_no_call_witness:
  "generate_linkedin_post (sample_env (py ''Hi'')) [] sample_results (py ''brief'') []
     (py ''English'') = ((PNone, PStr (py ''OpenAI API key is required'')), []) \<and>
   cached_search_web_content (sample_env (py ''Hi'')) 0 (Map.empty, []) (py ''ai'')
     (py ''search'') [] 10 =
     ((None, PStr (py ''Serper API key is required'')),
      [(py ''ai'', py ''search'', [], 10) \<mapsto>
         \<lparr>stored_at = 0, cached_value = (None, PStr (py ''Serper API key is required''))\<rparr>],
      [])"
  using missing_key_no_call [of "sample_env (py ''Hi'')" "[]" "py ''Hi''" "py ''English''"
      "py ''ai''" "py ''search''" 10 0 Map.empty sample_results "py ''brief''"]
  by (simp add: cached_search_web_content_def)

text \<open>
  Claim C9 (as amended). The style instructions of the three passes are the sanitized
  instructions of the user: as they are in the first pass, followed by a blank line and
  the sentence asking for a casual, story-driven version in the second, and by the one
  asking for a data-driven, professional version in the third. These are what the
  three model calls of the loop are built from.
\<close>

theorem variation_prompts_amended:
  "variation_prompt style 0 = clean_str style \<and>
   variation_prompt style 1 =
     clean_str style @ py ''\<newline>\<newline>Make this version more casual and story-driven.'' \<and>
   variation_prompt style 2 =
     clean_str style @ py ''\<newline>\<newline>Make this version more data-driven and professional.'' \<and>
   (k \<noteq> [] \<longrightarrow>
      snd (generate_variations e now found style k sel [0, 1, 2] ([], tr)) =
        tr @ [Gpt4_invoke k (base_prompt found (variation_prompt style 0)
                               (str_strip (clean_str sel))),
              Gpt4_invoke k (base_prompt found (variation_prompt style 1)
                               (str_strip (clean_str sel))),
              Gpt4_invoke k (base_prompt found (variation_prompt style 2)
                               (str_strip (clean_str sel)))])"
  using generate_variations_calls [of k e now found style sel "[0, 1, 2]" "[]" tr]
  by (simp add: variation_prompt_def)

theorem variation_prompts_amended_witness:
  "py ''ok'' \<noteq> [] \<and>
   variation_prompt (py ''Focus on AI'') 1 =
     py ''Focus on AI\<newline>\<newline>Make this version more casual and story-driven.'' \<and>
   length (snd (generate_variations (sample_env (py ''Hi'')) 0 sample_results
                  (py ''Focus on AI'') (py ''ok'') (py ''English'') [0, 1, 2] ([], []))) = 3"
proof -
  note t = variation_prompts_amended [of "py ''Focus on AI''" "py ''ok''"
      "sample_env (py ''Hi'')" 0 sample_results "py ''English''" "[]"]
  have k: "py ''ok'' \<noteq> []" by (simp add: py_def)
  from t have "variation_prompt (py ''Focus on AI'') 1 =
      clean_str (py ''Focus on AI'') @
      py ''\<newline>\<newline>Make this version more casual and story-driven.''"
    by blast
  then have v: "variation_prompt (py ''Focus on AI'') 1 =
      py ''Focus on AI\<newline>\<newline>Make this version more casual and story-driven.''"
    by (simp add: run_defs)
  from t k have c: "snd (generate_variations (sample_env (py ''Hi'')) 0 sample_results
                  (py ''Focus on AI'') (py ''ok'') (py ''English'') [0, 1, 2] ([], [])) =
      ([] @ [Gpt4_invoke (py ''ok'')
           (base_prompt sample_results (variation_prompt (py ''Focus on AI'') 0)
              (str_strip (clean_str (py ''English'')))),
         Gpt4_invoke (py ''ok'')
           (base_prompt sample_results (variation_prompt (py ''Focus on AI'') 1)
              (str_strip (clean_str (py ''English'')))),
         Gpt4_invoke (py ''ok'')
           (base_prompt sample_results (variation_prompt (py ''Focus on AI'') 2)
              (str_strip (clean_str (py ''English''))))])"
    by blast
  have "length (snd (generate_variations (sample_env (py ''Hi'')) 0 sample_results
                  (py ''Focus on AI'') (py ''ok'') (py ''English'') [0, 1, 2] ([], []))) = 3"
    unfolding c by simp
  with k v show ?thesis by simp
qed

text \<open>
  Claim C9 as stated fails for the first pass: the instructions are sanitized before
  they are passed on, so a parenthesised remark in them is lost.
\<close>

theorem variation_one_not_unmodified:
  "variation_prompt (py ''Focus (briefly) on AI'') 0 = py ''Focus on AI'' \<and>
   variation_prompt (py ''Focus (briefly) on AI'') 0 \<noteq> py ''Focus (briefly) on AI''"
  by (simp add: variation_prompt_def run_defs)

text \<open>
  Claim C10. On every JSON value that follows the provider's schema, entries and
  fields missing or not, \<open>generate_linkedin_post\<close> raises nothing before its \<open>try\<close>
  block: without a key it returns the error naming the key, and with one it calls the
  model once, on the prompt whose summary has one line per item used and whose links
  are the first three collected, and returns the sanitized answer or the failure of
  the call. A dict with neither an \<open>organic\<close> nor a \<open>news\<close> entry follows the schema
  and gives the empty summary; an item follows it when each of its title, snippet and
  link is missing, null or a string, and a missing field shows as nothing in its line.
\<close>

theorem compose_tolerates_missing_fields:
  "(results_ok j \<longrightarrow>
      (let prompt =
             base_prompt_part1 @ str_strip lang @ base_prompt_part2 @ str_strip lang @
             base_prompt_part3 @ concat (map summary_line (items_used (results_view j))) @
             base_prompt_part4 @
             str_join [10] (take 3 (concat (map item_link (items_used (results_view j))))) @
             base_prompt_part5 @ style @ base_prompt_part6;
           c = Gpt4_invoke k prompt
       in generate_linkedin_post_json e tr j style k lang =
            (if k = [] then Inr ((PNone, PStr (py ''OpenAI API key is required'')), tr)
             else case gpt4_reply e tr c of
                    Inr r \<Rightarrow> Inr ((PStr (clean_str r), PNone), tr @ [c])
                  | Inl x \<Rightarrow>
                      Inr ((PNone, PStr (py ''Post generation failed: '' @ x)), tr @ [c])))) \<and>
   (map_of d (py ''organic'') = None \<and> map_of d (py ''news'') = None \<longrightarrow>
      results_ok (JDict d) \<and> items_used (results_view (JDict d)) = []) \<and>
   (field_ok (map_of f (py ''title'')) \<and> field_ok (map_of f (py ''snippet'')) \<and>
    field_ok (map_of f (py ''link'')) \<longrightarrow>
      item_ok (JDict f) \<and>
      summary_line (item_view (JDict f)) =
        [8226, 32] @ field_shown (field_view (map_of f (py ''title''))) @ [58, 32] @
        field_shown (field_view (map_of f (py ''snippet''))) @ [10]) \<and>
   field_ok None \<and> field_ok (Some (JStr t)) \<and>
   field_shown (field_view None) = [] \<and>
   field_shown (field_view (Some (JStr t))) = clean_str t"
proof -
  let ?p = "base_prompt_part1 @ str_strip lang @ base_prompt_part2 @ str_strip lang @
             base_prompt_part3 @ concat (map summary_line (items_used (results_view j))) @
             base_prompt_part4 @
             str_join [10] (take 3 (concat (map item_link (items_used (results_view j))))) @
             base_prompt_part5 @ style @ base_prompt_part6"
  have bp: "base_prompt (results_view j) style (str_strip lang) = ?p"
    by (simp add: base_prompt_def extract_content_eq)
  have 1: "generate_linkedin_post_json e tr j style k lang =
            (if k = [] then Inr ((PNone, PStr (py ''OpenAI API key is required'')), tr)
             else case gpt4_reply e tr (Gpt4_invoke k ?p) of
                    Inr r \<Rightarrow> Inr ((PStr (clean_str r), PNone), tr @ [Gpt4_invoke k ?p])
                  | Inl x \<Rightarrow>
                      Inr ((PNone, PStr (py ''Post generation failed: '' @ x)),
                           tr @ [Gpt4_invoke k ?p]))"
    if "results_ok j"
    unfolding generate_json_ok [OF that]
    by (cases "gpt4_reply e tr (Gpt4_invoke k ?p)")
      (simp_all add: generate_linkedin_post_def bp Let_def)
  have 2: "results_ok (JDict d) \<and> items_used (results_view (JDict d)) = []"
    if "map_of d (py ''organic'') = None \<and> map_of d (py ''news'') = None"
    using that
    by (simp add: results_ok_def section_ok_def results_view_def section_view_def items_used_def)
  have 3: "item_ok (JDict f) \<and>
      summary_line (item_view (JDict f)) =
        [8226, 32] @ field_shown (field_view (map_of f (py ''title''))) @ [58, 32] @
        field_shown (field_view (map_of f (py ''snippet''))) @ [10]"
    if "field_ok (map_of f (py ''title'')) \<and> field_ok (map_of f (py ''snippet'')) \<and>
        field_ok (map_of f (py ''link''))"
    using that by (simp add: item_ok_def summary_line_view)
  have 4: "field_ok None \<and> field_ok (Some (JStr t)) \<and> field_shown (field_view None) = [] \<and>
      field_shown (field_view (Some (JStr t))) = clean_str t"
    by (simp add: field_ok_def field_view_def field_shown_def)
  from 1 2 3 4 show ?thesis unfolding Let_def by blast
qed

theorem compose_tolerates_missing_fields_witness:
  "results_ok sample_json \<and>
   generate_linkedin_post_json (sample_env (py ''Post (draft) text'')) [] sample_json []
     (py ''ok'') (py ''English'') =
     Inr ((PStr (py ''Post text''), PNone),
          [Gpt4_invoke (py ''ok'')
             (base_prompt_part1 @ py ''English'' @ base_prompt_part2 @ py ''English'' @
              base_prompt_part3 @
              ([8226] @ py '' Agents: \<newline>'' @ [8226] @ py '' : \<newline>'') @
              base_prompt_part4 @ base_prompt_part5 @ base_prompt_part6)]) \<and>
   generate_linkedin_post_json (sample_env (py ''Post'')) [] JNull [] (py ''ok'')
     (py ''English'') = Inl TypeError \<and>
   generate_linkedin_post_json (sample_env (py ''Post'')) []
     (JDict [(py ''organic'', JList [JDict [(py ''title'', JNum 7)]])]) [] (py ''ok'')
     (py ''English'') = Inl TypeError"
proof -
  have ok: "results_ok sample_json"
    by (simp add: json_defs py_def)
  have k: "py ''ok'' \<noteq> []" by (simp add: py_def)
  from compose_tolerates_missing_fields [of sample_json "py ''English''" "[]" "py ''ok''"
      "sample_env (py ''Post (draft) text'')" "[]"] ok k
  have "generate_linkedin_post_json (sample_env (py ''Post (draft) text'')) [] sample_json []
     (py ''ok'') (py ''English'') =
     (case gpt4_reply (sample_env (py ''Post (draft) text'')) []
             (Gpt4_invoke (py ''ok'')
               (base_prompt_part1 @ str_strip (py ''English'') @ base_prompt_part2 @
                str_strip (py ''English'') @ base_prompt_part3 @
                concat (map summary_line (items_used (results_view sample_json))) @
                base_prompt_part4 @
                str_join [10]
                  (take 3 (concat (map item_link (items_used (results_view sample_json))))) @
                base_prompt_part5 @ [] @ base_prompt_part6)) of
        Inr r \<Rightarrow>
          Inr ((PStr (clean_str r), PNone),
               [] @ [Gpt4_invoke (py ''ok'')
               (base_prompt_part1 @ str_strip (py ''English'') @ base_prompt_part2 @
                str_strip (py ''English'') @ base_prompt_part3 @
                concat (map summary_line (items_used (results_view sample_json))) @
                base_prompt_part4 @
                str_join [10]
                  (take 3 (concat (map item_link (items_used (results_view sample_json))))) @
                base_prompt_part5 @ [] @ base_prompt_part6)])
      | Inl x \<Rightarrow>
          Inr ((PNone, PStr (py ''Post generation failed: '' @ x)),
               [] @ [Gpt4_invoke (py ''ok'')
               (base_prompt_part1 @ str_strip (py ''English'') @ base_prompt_part2 @
                str_strip (py ''English'') @ base_prompt_part3 @
                concat (map summary_line (items_used (results_view sample_json))) @
                base_prompt_part4 @
                str_join [10]
                  (take 3 (concat (map item_link (items_used (results_view sample_json))))) @
                base_prompt_part5 @ [] @ base_prompt_part6)]))"
    unfolding Let_def by simp
  then have run: "generate_linkedin_post_json (sample_env (py ''Post (draft) text'')) []
     sample_json [] (py ''ok'') (py ''English'') =
     Inr ((PStr (py ''Post text''), PNone),
          [Gpt4_invoke (py ''ok'')
             (base_prompt_part1 @ py ''English'' @ base_prompt_part2 @ py ''English'' @
              base_prompt_part3 @
              ([8226] @ py '' Agents: \<newline>'' @ [8226] @ py '' : \<newline>'') @
              base_prompt_part4 @ base_prompt_part5 @ base_prompt_part6)])"
    by (simp add: sample_env_def json_defs run_defs)
  have raises: "generate_linkedin_post_json (sample_env (py ''Post'')) [] JNull [] (py ''ok'')
     (py ''English'') = Inl TypeError \<and>
   generate_linkedin_post_json (sample_env (py ''Post'')) []
     (JDict [(py ''organic'', JList [JDict [(py ''title'', JNum 7)]])]) [] (py ''ok'')
     (py ''English'') = Inl TypeError"
    by (simp add: generate_linkedin_post_json_def extract_content_json_def dict_get_def py_def)
  from ok run raises show ?thesis by blast
qed

end
